theory Spec2Isabelle
  imports Main
begin

section \<open>SSH Brute Force Defender (problem-4/level-1.py)\<close>

text \<open>
  A shallow embedding of the three classes of the script: \<open>FirewallController\<close>,
  \<open>SecurityMonitor\<close> and the parts of \<open>SSHLogParser\<close> that decide how a
  timestamp is read and how monitoring starts.

  Everything the script reads from outside is an argument of the model:
  \<^item> \<open>datetime.now()\<close> is a \<open>datetime\<close> passed to the function that reads it, one
    argument for each read;
  \<^item> the host that answers \<open>subprocess.run\<close> and \<open>os.system\<close> is a function from
    the invocations made so far and the new invocation to a reply, and the list of
    invocations made so far is threaded through every function that may shell out;
  \<^item> calls of the logger are not modelled.
\<close>

subsection \<open>Python exceptions\<close>

datatype py_exception =
  ValueError | OverflowError | FileNotFoundError | SubprocessError | OtherException

subsection \<open>datetime\<close>

text \<open>
  A naive \<open>datetime\<close> with the fields of the Python class. The calendar functions are
  those of the standard library (\<open>_is_leap\<close>, \<open>_days_before_year\<close>,
  \<open>_days_in_month\<close>, \<open>_days_before_month\<close>, \<open>_ymd2ord\<close>).
\<close>

record datetime =
  dt_year :: int
  dt_month :: int
  dt_day :: int
  dt_hour :: int
  dt_minute :: int
  dt_second :: int
  dt_microsecond :: int

definition MINYEAR :: int where
  "MINYEAR = 1"

definition MAXYEAR :: int where
  "MAXYEAR = 9999"

definition MAXORDINAL :: int where
  "MAXORDINAL = 3652059"

definition is_leap :: "int \<Rightarrow> bool" where
  "is_leap y = (y mod 4 = 0 \<and> (y mod 100 \<noteq> 0 \<or> y mod 400 = 0))"

definition days_before_year :: "int \<Rightarrow> int" where
  "days_before_year year =
     (let y = year - 1 in y * 365 + y div 4 - y div 100 + y div 400)"

definition days_in_month :: "int \<Rightarrow> int \<Rightarrow> int" where
  "days_in_month year month =
     (if month = 2 \<and> is_leap year then 29
      else if month = 2 then 28
      else if month = 4 \<or> month = 6 \<or> month = 9 \<or> month = 11 then 30
      else 31)"

definition days_before_month :: "int \<Rightarrow> int \<Rightarrow> int" where
  "days_before_month year month =
     (if month = 1 then 0 else if month = 2 then 31 else if month = 3 then 59
      else if month = 4 then 90 else if month = 5 then 120 else if month = 6 then 151
      else if month = 7 then 181 else if month = 8 then 212 else if month = 9 then 243
      else if month = 10 then 273 else if month = 11 then 304 else 334)
     + (if month > 2 \<and> is_leap year then 1 else 0)"

definition ymd2ord :: "int \<Rightarrow> int \<Rightarrow> int \<Rightarrow> int" where
  "ymd2ord year month day = days_before_year year + days_before_month year month + day"

definition valid_datetime :: "datetime \<Rightarrow> bool" where
  "valid_datetime d =
     (MINYEAR \<le> dt_year d \<and> dt_year d \<le> MAXYEAR \<and>
      1 \<le> dt_month d \<and> dt_month d \<le> 12 \<and>
      1 \<le> dt_day d \<and> dt_day d \<le> days_in_month (dt_year d) (dt_month d) \<and>
      0 \<le> dt_hour d \<and> dt_hour d \<le> 23 \<and>
      0 \<le> dt_minute d \<and> dt_minute d \<le> 59 \<and>
      0 \<le> dt_second d \<and> dt_second d \<le> 59 \<and>
      0 \<le> dt_microsecond d \<and> dt_microsecond d \<le> 999999)"

text \<open>
  The position of a datetime on the timeline, in microseconds since
  \<open>0001-01-01 00:00:00\<close>. Python compares two naive datetimes by their fields in
  order, which is the order of these positions, and \<open>datetime \<plusminus> timedelta\<close> adds to
  this position; the sum is a datetime when its day lies in \<open>1..MAXORDINAL\<close> and an
  \<open>OverflowError\<close> otherwise. A result of datetime arithmetic is only ever compared
  in the script, so it is kept as its position.
\<close>

definition dt_us :: "datetime \<Rightarrow> int" where
  "dt_us d =
     (((ymd2ord (dt_year d) (dt_month d) (dt_day d) - 1) * 86400
        + dt_hour d * 3600 + dt_minute d * 60 + dt_second d) * 1000000
      + dt_microsecond d)"

definition dt_plus_seconds :: "datetime \<Rightarrow> int \<Rightarrow> py_exception + int" where
  "dt_plus_seconds d secs =
     (let r = dt_us d + secs * 1000000
      in if 0 \<le> r \<and> r < MAXORDINAL * 86400 * 1000000 then Inr r else Inl OverflowError)"

subsection \<open>The host: external commands and their replies\<close>

datatype invocation = Subprocess_run "string list" | Os_system string

datatype reply = Completed int string string | Raises py_exception

type_synonym host = "invocation list \<Rightarrow> invocation \<Rightarrow> reply"

definition invoke :: "host \<Rightarrow> invocation list \<Rightarrow> invocation \<Rightarrow> reply \<times> invocation list" where
  "invoke h lg c = (h lg c, lg @ [c])"

fun str_in :: "string \<Rightarrow> string \<Rightarrow> bool" where
  "str_in s [] = (s = [])"
| "str_in s (c # cs) = (take (length s) (c # cs) = s \<or> str_in s cs)"

subsection \<open>FirewallController\<close>

record firewall_controller =
  simulation_mode :: bool
  firewall_system :: string

definition detect_available_firewall ::
  "host \<Rightarrow> invocation list \<Rightarrow> (py_exception + string) \<times> invocation list" where
  "detect_available_firewall h lg =
     (let (ufw_result, lg1) = invoke h lg (Subprocess_run [''ufw'', ''status'']);
          try_iptables =
            (let (iptables_result, lg2) =
                   invoke h lg1 (Subprocess_run [''iptables'', ''--version''])
             in case iptables_result of
                  Completed rc out err \<Rightarrow>
                    if rc = 0 then (Inr ''iptables'', lg2) else (Inr ''none'', lg2)
                | Raises e \<Rightarrow>
                    if e = SubprocessError \<or> e = FileNotFoundError then (Inr ''none'', lg2)
                    else (Inl e, lg2))
      in case ufw_result of
           Completed rc out err \<Rightarrow>
             if rc = 0 \<and> str_in ''Status: active'' out then (Inr ''ufw'', lg1)
             else try_iptables
         | Raises e \<Rightarrow>
             if e = SubprocessError \<or> e = FileNotFoundError then try_iptables
             else (Inl e, lg1))"

definition FirewallController_init ::
  "bool \<Rightarrow> host \<Rightarrow> invocation list \<Rightarrow> (py_exception + firewall_controller) \<times> invocation list" where
  "FirewallController_init simulation h lg =
     (case detect_available_firewall h lg of
        (Inl e, lg') \<Rightarrow> (Inl e, lg')
      | (Inr sys, lg') \<Rightarrow>
          (Inr \<lparr>simulation_mode = simulation, firewall_system = sys\<rparr>, lg'))"

definition block_with_ufw :: "host \<Rightarrow> invocation list \<Rightarrow> string \<Rightarrow> bool \<times> invocation list" where
  "block_with_ufw h lg ip =
     (let (result, lg1) =
            invoke h lg (Subprocess_run [''ufw'', ''deny'', ''from'', ip, ''to'', ''any''])
      in case result of
           Completed rc out err \<Rightarrow> (rc = 0, lg1)
         | Raises e \<Rightarrow> (False, lg1))"

definition iptables_check_cmd :: "string \<Rightarrow> invocation" where
  "iptables_check_cmd ip = Os_system (''iptables -C INPUT -s '' @ ip @ '' -j DROP 2>/dev/null'')"

definition iptables_add_cmd :: "string \<Rightarrow> invocation" where
  "iptables_add_cmd ip = Subprocess_run [''iptables'', ''-A'', ''INPUT'', ''-s'', ip, ''-j'', ''DROP'']"

definition block_with_iptables :: "host \<Rightarrow> invocation list \<Rightarrow> string \<Rightarrow> bool \<times> invocation list" where
  "block_with_iptables h lg ip =
     (let (checked, lg1) = invoke h lg (iptables_check_cmd ip)
      in case checked of
           Raises e \<Rightarrow> (False, lg1)
         | Completed status out err \<Rightarrow>
             if status = 0 then (True, lg1)
             else
               (let (result, lg2) = invoke h lg1 (iptables_add_cmd ip)
                in case result of
                     Completed rc out2 err2 \<Rightarrow> (rc = 0, lg2)
                   | Raises e \<Rightarrow> (False, lg2)))"

definition block_ip ::
  "host \<Rightarrow> firewall_controller \<Rightarrow> invocation list \<Rightarrow> string \<Rightarrow> bool \<times> invocation list" where
  "block_ip h fw lg ip =
     (if simulation_mode fw then (True, lg)
      else if firewall_system fw = ''ufw'' then block_with_ufw h lg ip
      else if firewall_system fw = ''iptables'' then block_with_iptables h lg ip
      else (False, lg))"

subsection \<open>SecurityMonitor\<close>

text \<open>
  \<open>failures_by_ip\<close> is a \<open>defaultdict(list)\<close>: a dictionary whose lookup of a
  missing key stores and returns the empty list. \<open>history\<close> is that lookup's value.
\<close>

record security_monitor =
  failure_threshold :: int
  time_window :: int
  safe_ips :: "string set"
  firewall :: "firewall_controller option"
  failures_by_ip :: "string \<rightharpoonup> datetime list"
  blocked_ips :: "string set"

definition SecurityMonitor_init :: "int \<Rightarrow> int \<Rightarrow> string list \<Rightarrow> security_monitor" where
  "SecurityMonitor_init threshold window safe =
     \<lparr>failure_threshold = threshold, time_window = window, safe_ips = set safe,
      firewall = None, failures_by_ip = Map.empty, blocked_ips = {}\<rparr>"

definition set_firewall :: "security_monitor \<Rightarrow> firewall_controller \<Rightarrow> security_monitor" where
  "set_firewall m fw = m\<lparr>firewall := Some fw\<rparr>"

definition history :: "security_monitor \<Rightarrow> string \<Rightarrow> datetime list" where
  "history m ip = (case failures_by_ip m ip of None \<Rightarrow> [] | Some ts \<Rightarrow> ts)"

datatype outcome =
  Ignored_whitelisted
| Ignored_blocked
| Raised py_exception
| Below_threshold
| Threshold_no_firewall
| Block_failed
| Block_succeeded

definition newer :: "int \<Rightarrow> datetime list \<Rightarrow> datetime list" where
  "newer cutoff tss = filter (\<lambda>ts. dt_us ts > cutoff) tss"

definition record_failure ::
  "host \<Rightarrow> datetime \<Rightarrow> security_monitor \<Rightarrow> invocation list \<Rightarrow> string \<Rightarrow> datetime
     \<Rightarrow> outcome \<times> security_monitor \<times> invocation list" where
  "record_failure h now m lg ip timestamp =
     (if ip \<in> safe_ips m then (Ignored_whitelisted, m, lg)
      else if ip \<in> blocked_ips m then (Ignored_blocked, m, lg)
      else
        (let m1 = m\<lparr>failures_by_ip := (failures_by_ip m)(ip \<mapsto> history m ip @ [timestamp])\<rparr>
         in case dt_plus_seconds now (- time_window m) of
              Inl e \<Rightarrow> (Raised e, m1, lg)
            | Inr cutoff \<Rightarrow>
                (let m2 = m1\<lparr>failures_by_ip :=
                            (failures_by_ip m1)(ip \<mapsto> newer cutoff (history m1 ip))\<rparr>;
                     failure_count = int (length (history m2 ip))
                 in if failure_count \<ge> failure_threshold m2 then
                      (case firewall m2 of
                         None \<Rightarrow> (Threshold_no_firewall, m2, lg)
                       | Some fw \<Rightarrow>
                           (case block_ip h fw lg ip of
                              (True, lg') \<Rightarrow>
                                (Block_succeeded,
                                 m2\<lparr>blocked_ips := insert ip (blocked_ips m2),
                                    failures_by_ip := (failures_by_ip m2)(ip \<mapsto> [])\<rparr>,
                                 lg')
                            | (False, lg') \<Rightarrow> (Block_failed, m2, lg')))
                    else (Below_threshold, m2, lg))))"

subsection \<open>Strings, \<open>str\<close> and \<open>datetime.strptime\<close>\<close>

text \<open>
  A string is a list of HOL characters, that is of code points below 256.
  \<open>str_int\<close> is \<open>str\<close> of an integer, as the f-string renders the year.

  \<open>strptime\<close> reads a string against a format made of the directives \<open>%Y\<close>,
  \<open>%b\<close>, \<open>%m\<close>, \<open>%d\<close>, \<open>%H\<close>, \<open>%M\<close>, \<open>%S\<close>, white space and literal
  characters, which is what the two formats of the script are made of. The library turns
  the format into a regular expression, matched ignoring case from the start of the
  string: \<open>%Y\<close> is four digits; \<open>%b\<close> an English month abbreviation; \<open>%m\<close>, \<open>%d\<close>,
  \<open>%H\<close>, \<open>%M\<close> and \<open>%S\<close> one or two digits with a value in \<open>1..12\<close>,
  \<open>1..31\<close>, \<open>0..23\<close>, \<open>0..59\<close> and \<open>0..61\<close>, and \<open>%d\<close> also one space
  followed by one digit from 1 to 9; white space in the format is one or more white space
  characters. In both formats every numeric directive is followed by
  a character that no digit matches, or by the end of the string, so the digits a
  directive matches are all the digits at that place: \<open>digits_in\<close> takes them all and
  fails when there are more than two or the value is out of range. A string that does not
  match, text left over after the match, and fields that are not a date
  (\<open>Feb 30\<close>, second 60) all raise \<open>ValueError\<close>.

  The regular expressions are patterns over \<open>str\<close>: below 256, their class of
  decimal digits is the ten ASCII digits, and their class of white space is the space, the
  characters \<open>0x09\<close> to \<open>0x0D\<close>, the separators \<open>0x1C\<close> to \<open>0x1F\<close>, the
  next-line character \<open>0x85\<close> and the no-break space \<open>0xA0\<close>.
\<close>

definition is_digit :: "char \<Rightarrow> bool" where
  "is_digit c = (c \<in> set ''0123456789'')"

definition is_space :: "char \<Rightarrow> bool" where
  "is_space c =
     (c \<in> {CHR '' '', CHR 0x09, CHR 0x0A, CHR 0x0B, CHR 0x0C, CHR 0x0D,
            CHR 0x1C, CHR 0x1D, CHR 0x1E, CHR 0x1F, CHR 0x85, CHR 0xA0})"

definition digit_val :: "char \<Rightarrow> int" where
  "digit_val c = int (length (takeWhile (\<lambda>x. x \<noteq> c) ''0123456789''))"

definition digit_char :: "nat \<Rightarrow> char" where
  "digit_char d = ''0123456789'' ! d"

fun str_nat :: "nat \<Rightarrow> string" where
  "str_nat n = (if n < 10 then [digit_char n] else str_nat (n div 10) @ [digit_char (n mod 10)])"

declare str_nat.simps [simp del]

definition str_int :: "int \<Rightarrow> string" where
  "str_int i = (if i < 0 then CHR ''-'' # str_nat (nat (- i)) else str_nat (nat i))"

definition number :: "string \<Rightarrow> int" where
  "number ds = foldl (\<lambda>acc c. acc * 10 + digit_val c) 0 ds"

definition lower :: "char \<Rightarrow> char" where
  "lower c =
     (case map_of (zip ''ABCDEFGHIJKLMNOPQRSTUVWXYZ'' ''abcdefghijklmnopqrstuvwxyz'') c of
        None \<Rightarrow> c
      | Some l \<Rightarrow> l)"

definition month_abbr :: "string \<Rightarrow> int option" where
  "month_abbr s =
     map_of [(''jan'', 1), (''feb'', 2), (''mar'', 3), (''apr'', 4), (''may'', 5), (''jun'', 6),
             (''jul'', 7), (''aug'', 8), (''sep'', 9), (''oct'', 10), (''nov'', 11), (''dec'', 12)]
       (map lower s)"

definition digits_in :: "int \<Rightarrow> int \<Rightarrow> string \<Rightarrow> (int \<times> string) option" where
  "digits_in lo hi data =
     (let ds = takeWhile is_digit data
      in if (length ds = 1 \<or> length ds = 2) \<and> lo \<le> number ds \<and> number ds \<le> hi
           \<and> (length ds = 2 \<or> lo = 0 \<or> number ds \<noteq> 0)
         then Some (number ds, dropWhile is_digit data) else None)"

definition directive :: "char \<Rightarrow> string \<Rightarrow> datetime \<Rightarrow> (datetime \<times> string) option" where
  "directive d data f =
     (if d = CHR ''Y'' then
        (if 4 \<le> length data \<and> list_all is_digit (take 4 data)
         then Some (f\<lparr>dt_year := number (take 4 data)\<rparr>, drop 4 data) else None)
      else if d = CHR ''b'' then
        (case month_abbr (take 3 data) of
           None \<Rightarrow> None
         | Some v \<Rightarrow> Some (f\<lparr>dt_month := v\<rparr>, drop 3 data))
      else if d = CHR ''m'' then
        map_option (\<lambda>(v, rest). (f\<lparr>dt_month := v\<rparr>, rest)) (digits_in 1 12 data)
      else if d = CHR ''d'' then
        (case digits_in 1 31 data of
           Some (v, rest) \<Rightarrow> Some (f\<lparr>dt_day := v\<rparr>, rest)
         | None \<Rightarrow>
             (case data of
                x # y # rest \<Rightarrow>
                  if x = CHR '' '' \<and> is_digit y \<and> y \<noteq> CHR ''0''
                  then Some (f\<lparr>dt_day := digit_val y\<rparr>, rest) else None
              | _ \<Rightarrow> None))
      else if d = CHR ''H'' then
        map_option (\<lambda>(v, rest). (f\<lparr>dt_hour := v\<rparr>, rest)) (digits_in 0 23 data)
      else if d = CHR ''M'' then
        map_option (\<lambda>(v, rest). (f\<lparr>dt_minute := v\<rparr>, rest)) (digits_in 0 59 data)
      else if d = CHR ''S'' then
        map_option (\<lambda>(v, rest). (f\<lparr>dt_second := v\<rparr>, rest)) (digits_in 0 61 data)
      else None)"

function strptime_fields :: "string \<Rightarrow> string \<Rightarrow> datetime \<Rightarrow> datetime option" where
  "strptime_fields [] data f = (if data = [] then Some f else None)"
| "strptime_fields (c # fmt) data f =
     (if c = CHR ''%'' then
        (case fmt of
           [] \<Rightarrow> None
         | d # fmt' \<Rightarrow>
             (case directive d data f of
                None \<Rightarrow> None
              | Some (f', rest) \<Rightarrow> strptime_fields fmt' rest f'))
      else if is_space c then
        (case data of
           [] \<Rightarrow> None
         | x # xs \<Rightarrow>
             if is_space x then strptime_fields (dropWhile is_space fmt) (dropWhile is_space xs) f
             else None)
      else
        (case data of
           [] \<Rightarrow> None
         | x # xs \<Rightarrow> if lower x = lower c then strptime_fields fmt xs f else None))"
  by pat_completeness auto
termination
  by (relation "measure (\<lambda>(fmt, data, f). length fmt)")
    (auto simp: length_dropWhile_le less_Suc_eq_le)

definition strptime :: "string \<Rightarrow> string \<Rightarrow> py_exception + datetime" where
  "strptime data fmt =
     (case strptime_fields fmt data
             \<lparr>dt_year = 1900, dt_month = 1, dt_day = 1, dt_hour = 0, dt_minute = 0,
              dt_second = 0, dt_microsecond = 0\<rparr> of
        None \<Rightarrow> Inl ValueError
      | Some f \<Rightarrow> if valid_datetime f then Inr f else Inl ValueError)"

text \<open>\<open>d.replace(year=y)\<close>: a \<open>ValueError\<close> when the result is not a date.\<close>

definition dt_replace_year :: "datetime \<Rightarrow> int \<Rightarrow> py_exception + datetime" where
  "dt_replace_year d y =
     (if valid_datetime (d\<lparr>dt_year := y\<rparr>) then Inr (d\<lparr>dt_year := y\<rparr>) else Inl ValueError)"

subsection \<open>SSHLogParser\<close>

text \<open>
  The log source is \<open>'auth_log'\<close> or \<open>'journald'\<close>: the two keys of
  \<open>SSH_PATTERNS\<close> and \<open>TIME_FORMATS\<close> and the only values the script passes.
\<close>

datatype source_type = Auth_log | Journald

definition TIME_FORMATS :: "source_type \<Rightarrow> string" where
  "TIME_FORMATS st = (case st of Auth_log \<Rightarrow> ''%Y %b %d %H:%M:%S'' | Journald \<Rightarrow> ''%Y-%m-%d %H:%M:%S'')"

text \<open>
  The timestamp of a matched log entry: the body of the \<open>try\<close> in
  \<open>_process_log_entry\<close> up to the call of \<open>record_failure\<close>. \<open>now1\<close> is the
  \<open>datetime.now()\<close> whose year is injected, \<open>now2\<close> the one the result is compared
  with. \<open>now + timedelta(days=1)\<close> raises \<open>OverflowError\<close> on the last day of the
  year 9999.
\<close>

definition entry_timestamp ::
  "datetime \<Rightarrow> datetime \<Rightarrow> source_type \<Rightarrow> string \<Rightarrow> py_exception + datetime" where
  "entry_timestamp now1 now2 st timestamp_str =
     (if st = Auth_log then
        (let current_year = dt_year now1
         in case strptime (str_int current_year @ '' '' @ timestamp_str) (TIME_FORMATS st) of
              Inl e \<Rightarrow> Inl e
            | Inr timestamp \<Rightarrow>
                (case dt_plus_seconds now2 86400 of
                   Inl e \<Rightarrow> Inl e
                 | Inr limit \<Rightarrow>
                     if dt_us timestamp > limit
                     then dt_replace_year timestamp (current_year - 1)
                     else Inr timestamp))
      else strptime timestamp_str (TIME_FORMATS st))"

text \<open>
  \<open>_process_log_entry\<close>, given what \<open>pattern.search(log_entry)\<close> returned: nothing,
  or the groups (timestamp, failure type, source address). A \<open>ValueError\<close> is caught
  and logged as a warning; any other exception leaves the method. \<open>now3\<close> is the
  \<open>datetime.now()\<close> read by \<open>record_failure\<close>.
\<close>

datatype entry_result = Not_matched | Parse_warning | Reported outcome | Propagated py_exception

definition process_log_entry ::
  "host \<Rightarrow> datetime \<Rightarrow> datetime \<Rightarrow> datetime \<Rightarrow> security_monitor \<Rightarrow> invocation list
     \<Rightarrow> source_type \<Rightarrow> (string \<times> string \<times> string) option
     \<Rightarrow> entry_result \<times> security_monitor \<times> invocation list" where
  "process_log_entry h now1 now2 now3 m lg st found =
     (case found of
        None \<Rightarrow> (Not_matched, m, lg)
      | Some (timestamp_str, failure_type, source_ip) \<Rightarrow>
          (case entry_timestamp now1 now2 st timestamp_str of
             Inl e \<Rightarrow>
               if e = ValueError then (Parse_warning, m, lg) else (Propagated e, m, lg)
           | Inr timestamp \<Rightarrow>
               (case record_failure h now3 m lg source_ip timestamp of
                  (out, m', lg') \<Rightarrow> (Reported out, m', lg'))))"

text \<open>
  The files the parser asks about are an argument: \<open>os.path.exists\<close> and
  \<open>os.access(path, os.R_OK)\<close>. The monitoring thread is recorded by the name of its
  target; what the thread then does is not modelled.
\<close>

record file_system =
  os_path_exists :: "string \<Rightarrow> bool"
  os_access_R_OK :: "string \<Rightarrow> bool"

record ssh_log_parser =
  security_monitor :: security_monitor
  is_active :: bool
  monitor_thread :: "string option"
  auth_log_path :: string

definition SSHLogParser_init :: "security_monitor \<Rightarrow> ssh_log_parser" where
  "SSHLogParser_init sm =
     \<lparr>security_monitor = sm, is_active = False, monitor_thread = None,
      auth_log_path = ''/var/log/auth.log''\<rparr>"

datatype halt = SystemExit int | Unhandled py_exception

definition determine_log_source ::
  "file_system \<Rightarrow> host \<Rightarrow> invocation list \<Rightarrow> ssh_log_parser
     \<Rightarrow> (halt + source_type) \<times> invocation list" where
  "determine_log_source fs h lg p =
     (if os_path_exists fs (auth_log_path p) \<and> os_access_R_OK fs (auth_log_path p)
      then (Inr Auth_log, lg)
      else
        (let (result, lg1) = invoke h lg (Subprocess_run [''journalctl'', ''--version''])
         in case result of
              Completed rc out err \<Rightarrow>
                if rc = 0 then (Inr Journald, lg1) else (Inl (SystemExit 1), lg1)
            | Raises e \<Rightarrow>
                if e = SubprocessError \<or> e = FileNotFoundError then (Inl (SystemExit 1), lg1)
                else (Inl (Unhandled e), lg1)))"

datatype start_result = Already_running | Started source_type | Halted halt

definition start_monitoring ::
  "file_system \<Rightarrow> host \<Rightarrow> invocation list \<Rightarrow> ssh_log_parser
     \<Rightarrow> start_result \<times> ssh_log_parser \<times> invocation list" where
  "start_monitoring fs h lg p =
     (if is_active p then (Already_running, p, lg)
      else
        (let p1 = p\<lparr>is_active := True\<rparr>
         in case determine_log_source fs h lg p1 of
              (Inl stop, lg1) \<Rightarrow> (Halted stop, p1, lg1)
            | (Inr log_source, lg1) \<Rightarrow>
                (Started log_source,
                 p1\<lparr>monitor_thread :=
                      Some (if log_source = Auth_log then ''_monitor_auth_log''
                            else ''_monitor_journald'')\<rparr>,
                 lg1)))"

subsection \<open>Sequences of calls on one monitor\<close>

text \<open>
  The monitor is driven by calls of \<open>set_firewall\<close> and \<open>record_failure\<close>.
  \<open>exec\<close> makes the calls of a list in order, threading the monitor and the
  invocations, and returns what each call of \<open>record_failure\<close> did.
\<close>

datatype op = Set_firewall firewall_controller | Record_failure datetime string datetime

fun exec ::
  "host \<Rightarrow> security_monitor \<Rightarrow> invocation list \<Rightarrow> op list
     \<Rightarrow> outcome option list \<times> security_monitor \<times> invocation list" where
  "exec h m lg [] = ([], m, lg)"
| "exec h m lg (Set_firewall fw # ops) =
     (case exec h (set_firewall m fw) lg ops of
        (outs, m', lg') \<Rightarrow> (None # outs, m', lg'))"
| "exec h m lg (Record_failure now ip ts # ops) =
     (case record_failure h now m lg ip ts of
        (out, m1, lg1) \<Rightarrow>
          (case exec h m1 lg1 ops of
             (outs, m', lg') \<Rightarrow> (Some out # outs, m', lg')))"

definition failure_of :: "string \<Rightarrow> op \<Rightarrow> bool" where
  "failure_of ip x = (case x of Record_failure now a ts \<Rightarrow> a = ip | Set_firewall fw \<Rightarrow> False)"

text \<open>
  What holds of the blocked set in every state the calls can reach: no blocked address
  is whitelisted, and the history of a blocked address is the empty list.
\<close>

definition blocked_inv :: "security_monitor \<Rightarrow> bool" where
  "blocked_inv m =
     (blocked_ips m \<inter> safe_ips m = {} \<and> (\<forall>a \<in> blocked_ips m. failures_by_ip m a = Some []))"

subsection \<open>The sliding window of one address\<close>

text \<open>
  A sequence of failures of one address: each pair is the value of \<open>datetime.now()\<close>
  during the call and the timestamp recorded.
\<close>

definition failures_of :: "string \<Rightarrow> (datetime \<times> datetime) list \<Rightarrow> op list" where
  "failures_of ip cs = map (\<lambda>(now, ts). Record_failure now ip ts) cs"

text \<open>\<open>now - timedelta(seconds=w)\<close> is a datetime: computing the cutoff does not raise.\<close>

definition representable :: "int \<Rightarrow> datetime \<Rightarrow> bool" where
  "representable w now = (dt_plus_seconds now (- w) = Inr (dt_us now - w * 1000000))"

text \<open>
  The histories that appending and pruning alone produce, one for each call of the
  sequence, starting from the history \<open>hist\<close>: after each call the history holds the
  timestamps retained so far and the new one that are strictly newer than
  \<open>now - w\<close>. \<open>first_reach\<close> is the index of the first of them whose length reaches
  the threshold.
\<close>

fun windows :: "int \<Rightarrow> datetime list \<Rightarrow> (datetime \<times> datetime) list \<Rightarrow> datetime list list" where
  "windows w hist [] = []"
| "windows w hist ((now, ts) # cs) =
     (let kept = newer (dt_us now - w * 1000000) (hist @ [ts]) in kept # windows w kept cs)"

fun first_reach :: "int \<Rightarrow> datetime list list \<Rightarrow> nat option" where
  "first_reach thr [] = None"
| "first_reach thr (kept # rest) =
     (if thr \<le> int (length kept) then Some 0 else map_option Suc (first_reach thr rest))"

subsection \<open>Hosts and instants used in the examples\<close>

text \<open>A host with neither \<open>ufw\<close> nor \<open>iptables\<close> installed.\<close>

definition no_tools_host :: host where
  "no_tools_host lg c = Raises FileNotFoundError"

text \<open>
  A host without \<open>ufw\<close> whose \<open>iptables\<close> keeps its rules: \<open>-C\<close> exits with 0
  exactly when the rule was added by an earlier \<open>-A\<close>, and every other command succeeds.
\<close>

definition iptables_host :: host where
  "iptables_host lg c =
     (case c of
        Os_system s \<Rightarrow>
          if \<exists>args \<in> set [a. Subprocess_run a \<leftarrow> lg].
               length args = 7 \<and> iptables_add_cmd (args ! 4) = Subprocess_run args
                 \<and> iptables_check_cmd (args ! 4) = c
          then Completed 0 [] [] else Completed 256 [] []
      | Subprocess_run args \<Rightarrow>
          if args = [''ufw'', ''status''] then Raises FileNotFoundError
          else Completed 0 [] [])"

text \<open>\<open>2024-01-01 12:mm:ss\<close>.\<close>

definition noon_plus :: "int \<Rightarrow> int \<Rightarrow> datetime" where
  "noon_plus mm ss =
     \<lparr>dt_year = 2024, dt_month = 1, dt_day = 1, dt_hour = 12, dt_minute = mm,
      dt_second = ss, dt_microsecond = 0\<rparr>"

definition simulated :: firewall_controller where
  "simulated = \<lparr>simulation_mode = True, firewall_system = ''none''\<rparr>"

text \<open>
  The monitor after one failure of \<open>203.0.113.7\<close> with threshold 1 and the
  simulated firewall: the address is blocked and its history is empty.
\<close>

definition blocked_example :: security_monitor where
  "blocked_example =
     \<lparr>failure_threshold = 1, time_window = 60, safe_ips = {}, firewall = Some simulated,
      failures_by_ip = [''203.0.113.7'' \<mapsto> []], blocked_ips = {''203.0.113.7''}\<rparr>"

text \<open>A controller that is not simulated and found \<open>ufw\<close>.\<close>

definition ufw_only :: firewall_controller where
  "ufw_only = \<lparr>simulation_mode = False, firewall_system = ''ufw''\<rparr>"

text \<open>Three failures of one address, each recorded at the instant it carries.\<close>

definition three_failures :: "string \<Rightarrow> datetime \<Rightarrow> datetime \<Rightarrow> datetime \<Rightarrow> op list" where
  "three_failures ip t0 t10 t70 =
     [Record_failure t0 ip t0, Record_failure t10 ip t10, Record_failure t70 ip t70]"

definition first_three :: "(datetime \<times> datetime) list" where
  "first_three =
     [(noon_plus 0 0, noon_plus 0 0), (noon_plus 0 10, noon_plus 0 10),
      (noon_plus 1 10, noon_plus 1 10)]"

text \<open>A file system where every path exists and can be read.\<close>

definition readable_files :: file_system where
  "readable_files = \<lparr>os_path_exists = (\<lambda>path. True), os_access_R_OK = (\<lambda>path. True)\<rparr>"

text \<open>\<open>2025-01-01 00:00:05\<close>.\<close>

definition new_year_2025 :: datetime where
  "new_year_2025 =
     \<lparr>dt_year = 2025, dt_month = 1, dt_day = 1, dt_hour = 0, dt_minute = 0, dt_second = 5,
      dt_microsecond = 0\<rparr>"

text \<open>\<open>2024-01-15 12:00:00\<close>, in a leap year.\<close>

definition mid_january_2024 :: datetime where
  "mid_january_2024 =
     \<lparr>dt_year = 2024, dt_month = 1, dt_day = 15, dt_hour = 12, dt_minute = 0, dt_second = 0,
      dt_microsecond = 0\<rparr>"

section \<open>Properties\<close>

subsection \<open>Evaluating the examples\<close>

lemmas calendar_defs = dt_us_def ymd2ord_def days_before_year_def days_before_month_def
  is_leap_def dt_plus_seconds_def MAXORDINAL_def noon_plus_def

lemma noon_us: "dt_us (noon_plus mm ss) = (63839707200 + mm * 60 + ss) * 1000000"
  by (simp add: calendar_defs)

lemma noon_cutoff:
  "0 \<le> mm \<Longrightarrow> 0 \<le> ss \<Longrightarrow> mm < 60 \<Longrightarrow> ss < 60 \<Longrightarrow> 0 \<le> w \<Longrightarrow> w \<le> 86400 \<Longrightarrow>
   dt_plus_seconds (noon_plus mm ss) (- w) = Inr ((63839707200 + mm * 60 + ss - w) * 1000000)"
  by (simp add: dt_plus_seconds_def noon_us MAXORDINAL_def Let_def algebra_simps)

lemmas eval_defs = SecurityMonitor_init_def set_firewall_def record_failure_def noon_cutoff
      history_def newer_def noon_us block_ip_def simulated_def Let_def

subsection \<open>One call of \<open>record_failure\<close>\<close>

lemma rf_fields:
  assumes "record_failure h now m lg ip ts = (out, m', lg')"
  shows "safe_ips m' = safe_ips m \<and> failure_threshold m' = failure_threshold m
     \<and> time_window m' = time_window m \<and> firewall m' = firewall m
     \<and> blocked_ips m \<subseteq> blocked_ips m'
     \<and> blocked_ips m' \<subseteq> insert ip (blocked_ips m)
     \<and> (\<forall>a. a \<noteq> ip \<longrightarrow> failures_by_ip m' a = failures_by_ip m a)"
  using assms
  by (auto simp: record_failure_def Let_def
      split: if_splits sum.splits option.splits prod.splits bool.splits)

lemma rf_safe:
  "ip \<in> safe_ips m \<Longrightarrow> record_failure h now m lg ip ts = (Ignored_whitelisted, m, lg)"
  by (simp add: record_failure_def)

lemma rf_blocked:
  "ip \<notin> safe_ips m \<Longrightarrow> ip \<in> blocked_ips m \<Longrightarrow>
     record_failure h now m lg ip ts = (Ignored_blocked, m, lg)"
  by (simp add: record_failure_def)

lemma rf_inv:
  assumes "record_failure h now m lg ip ts = (out, m', lg')" "blocked_inv m"
  shows "blocked_inv m'"
  using assms
  by (auto simp: record_failure_def blocked_inv_def Let_def
      split: if_splits sum.splits option.splits prod.splits bool.splits)

subsection \<open>Sequences of calls\<close>

lemma exec_length:
  "exec h m lg ops = (outs, m', lg') \<Longrightarrow> length outs = length ops"
proof (induction ops arbitrary: m lg outs)
  case Nil
  then show ?case by simp
next
  case (Cons x ops)
  then show ?case
    by (cases x) (auto split: prod.splits)
qed

lemma exec_preserves:
  "exec h m lg ops = (outs, m', lg') \<Longrightarrow>
     safe_ips m' = safe_ips m \<and> failure_threshold m' = failure_threshold m
     \<and> time_window m' = time_window m \<and> blocked_ips m \<subseteq> blocked_ips m'"
proof (induction ops arbitrary: m lg outs)
  case Nil
  then show ?case by simp
next
  case (Cons x ops)
  show ?case
  proof (cases x)
    case (Set_firewall fw)
    with Cons.prems obtain outs1 where
      "exec h (set_firewall m fw) lg ops = (outs1, m', lg')"
      by (auto split: prod.splits)
    from Cons.IH [OF this] show ?thesis
      by (simp add: set_firewall_def)
  next
    case (Record_failure now a ts)
    with Cons.prems obtain out m1 lg1 outs1 where
      rf: "record_failure h now m lg a ts = (out, m1, lg1)" and
      ex: "exec h m1 lg1 ops = (outs1, m', lg')"
      by (auto split: prod.splits)
    from rf_fields [OF rf] Cons.IH [OF ex] show ?thesis
      by auto
  qed
qed

lemma exec_inv:
  "exec h m lg ops = (outs, m', lg') \<Longrightarrow> blocked_inv m \<Longrightarrow> blocked_inv m'"
proof (induction ops arbitrary: m lg outs)
  case Nil
  then show ?case by simp
next
  case (Cons x ops)
  show ?case
  proof (cases x)
    case (Set_firewall fw)
    with Cons.prems obtain outs1 where
      ex: "exec h (set_firewall m fw) lg ops = (outs1, m', lg')"
      by (auto split: prod.splits)
    have "blocked_inv (set_firewall m fw)"
      using Cons.prems(2) by (simp add: blocked_inv_def set_firewall_def)
    with Cons.IH [OF ex] show ?thesis by simp
  next
    case (Record_failure now a ts)
    with Cons.prems obtain out m1 lg1 outs1 where
      rf: "record_failure h now m lg a ts = (out, m1, lg1)" and
      ex: "exec h m1 lg1 ops = (outs1, m', lg')"
      by (auto split: prod.splits)
    from rf_inv [OF rf Cons.prems(2)] Cons.IH [OF ex] show ?thesis by simp
  qed
qed

lemma init_inv: "blocked_inv (SecurityMonitor_init thr w safe)"
  by (simp add: blocked_inv_def SecurityMonitor_init_def)

lemma exec_blocked_noop:
  "exec h m lg ops = (outs, m', lg') \<Longrightarrow> ip \<in> blocked_ips m \<Longrightarrow> ip \<notin> safe_ips m \<Longrightarrow>
     failures_by_ip m' ip = failures_by_ip m ip \<and>
     (\<forall>(x, out) \<in> set (zip ops outs). failure_of ip x \<longrightarrow> out = Some Ignored_blocked)"
proof (induction ops arbitrary: m lg outs)
  case Nil
  then show ?case by simp
next
  case (Cons x ops)
  show ?case
  proof (cases x)
    case (Set_firewall fw)
    with Cons.prems obtain outs1 where
      ex: "exec h (set_firewall m fw) lg ops = (outs1, m', lg')" and o: "outs = None # outs1"
      by (auto split: prod.splits)
    from Cons.IH [OF ex] Cons.prems(2,3) show ?thesis
      by (simp add: set_firewall_def o Set_firewall failure_of_def)
  next
    case (Record_failure now a ts)
    with Cons.prems obtain out m1 lg1 outs1 where
      rf: "record_failure h now m lg a ts = (out, m1, lg1)" and
      ex: "exec h m1 lg1 ops = (outs1, m', lg')" and o: "outs = Some out # outs1"
      by (auto split: prod.splits)
    have keep: "ip \<in> blocked_ips m1" "ip \<notin> safe_ips m1"
      using rf_fields [OF rf] Cons.prems(2,3) by auto
    have here: "a = ip \<Longrightarrow> out = Ignored_blocked \<and> m1 = m"
      using rf rf_blocked [of ip m h now lg ts] Cons.prems(2,3) by simp
    have same: "failures_by_ip m1 ip = failures_by_ip m ip"
      using here rf_fields [OF rf] by (cases "a = ip") auto
    from Cons.IH [OF ex keep] here same show ?thesis
      by (auto simp: o Record_failure failure_of_def)
  qed
qed

lemma exec_safe_noop:
  "exec h m lg ops = (outs, m', lg') \<Longrightarrow> ip \<in> safe_ips m \<Longrightarrow>
     failures_by_ip m' ip = failures_by_ip m ip \<and>
     (ip \<in> blocked_ips m' \<longleftrightarrow> ip \<in> blocked_ips m) \<and>
     (\<forall>(x, out) \<in> set (zip ops outs). failure_of ip x \<longrightarrow> out = Some Ignored_whitelisted)"
proof (induction ops arbitrary: m lg outs)
  case Nil
  then show ?case by simp
next
  case (Cons x ops)
  show ?case
  proof (cases x)
    case (Set_firewall fw)
    with Cons.prems obtain outs1 where
      ex: "exec h (set_firewall m fw) lg ops = (outs1, m', lg')" and o: "outs = None # outs1"
      by (auto split: prod.splits)
    from Cons.IH [OF ex] Cons.prems(2) show ?thesis
      by (simp add: set_firewall_def o Set_firewall failure_of_def)
  next
    case (Record_failure now a ts)
    with Cons.prems obtain out m1 lg1 outs1 where
      rf: "record_failure h now m lg a ts = (out, m1, lg1)" and
      ex: "exec h m1 lg1 ops = (outs1, m', lg')" and o: "outs = Some out # outs1"
      by (auto split: prod.splits)
    have keep: "ip \<in> safe_ips m1"
      using rf_fields [OF rf] Cons.prems(2) by auto
    have here: "a = ip \<Longrightarrow> out = Ignored_whitelisted \<and> m1 = m"
      using rf rf_safe [of ip m h now lg ts] Cons.prems(2) by simp
    have same: "failures_by_ip m1 ip = failures_by_ip m ip
        \<and> (ip \<in> blocked_ips m1 \<longleftrightarrow> ip \<in> blocked_ips m)"
      using here rf_fields [OF rf] by (cases "a = ip") auto
    from Cons.IH [OF ex keep] here same show ?thesis
      by (auto simp: o Record_failure failure_of_def)
  qed
qed

subsection \<open>The block decision over a sequence of failures\<close>

lemma rf_counted:
  assumes "ip \<notin> safe_ips m" and "ip \<notin> blocked_ips m"
    and "representable (time_window m) now"
  shows "record_failure h now m lg ip ts =
     (let kept = newer (dt_us now - time_window m * 1000000) (history m ip @ [ts]);
          m2 = m\<lparr>failures_by_ip := (failures_by_ip m)(ip \<mapsto> kept)\<rparr>
      in if failure_threshold m \<le> int (length kept) then
           (case firewall m of
              None \<Rightarrow> (Threshold_no_firewall, m2, lg)
            | Some fw \<Rightarrow>
                if fst (block_ip h fw lg ip)
                then (Block_succeeded,
                      m2\<lparr>blocked_ips := insert ip (blocked_ips m),
                         failures_by_ip := (failures_by_ip m)(ip \<mapsto> [])\<rparr>,
                      snd (block_ip h fw lg ip))
                else (Block_failed, m2, snd (block_ip h fw lg ip)))
         else (Below_threshold, m2, lg))"
  using assms
  by (auto simp: record_failure_def representable_def Let_def history_def
      split: option.splits prod.splits bool.splits)

lemma exec_blocked_all:
  "ip \<in> blocked_ips m \<Longrightarrow> ip \<notin> safe_ips m \<Longrightarrow>
     exec h m lg (failures_of ip cs) = (replicate (length cs) (Some Ignored_blocked), m, lg)"
  by (induction cs) (auto simp: failures_of_def rf_blocked)

lemma first_reach_bound:
  "first_reach thr ws = Some k \<Longrightarrow> k < length ws"
  by (induction ws arbitrary: k) (auto split: if_splits)

lemma first_reach_iff:
  "first_reach thr ws = Some k \<longleftrightarrow>
     k < length ws \<and> thr \<le> int (length (ws ! k)) \<and> (\<forall>j < k. int (length (ws ! j)) < thr)"
proof (induction ws arbitrary: k)
  case Nil
  then show ?case by simp
next
  case (Cons kept rest)
  show ?case
  proof (cases "thr \<le> int (length kept)")
    case True
    then show ?thesis
      by (cases k) auto
  next
    case False
    show ?thesis
    proof (cases k)
      case 0
      with False show ?thesis by simp
    next
      case (Suc k')
      have "(\<forall>j < Suc k'. int (length ((kept # rest) ! j)) < thr)
          \<longleftrightarrow> (\<forall>j < k'. int (length (rest ! j)) < thr)"
        using False by (auto simp: less_Suc_eq_0_disj)
      with False Suc Cons.IH [of k'] show ?thesis
        by auto
    qed
  qed
qed

lemma first_reach_none:
  "first_reach thr ws = None \<Longrightarrow> \<forall>j < length ws. int (length (ws ! j)) < thr"
proof (induction ws)
  case Nil
  then show ?case by simp
next
  case (Cons kept rest)
  then show ?case
    by (auto simp: less_Suc_eq_0_disj split: if_splits)
qed

lemma windows_length: "length (windows w hist cs) = length cs"
  by (induction cs arbitrary: hist) (auto simp: Let_def)

lemma exec_first_reach:
  assumes "ip \<notin> safe_ips m" and "ip \<notin> blocked_ips m" and "firewall m = Some fw"
    and "\<forall>(now, ts) \<in> set cs. representable (time_window m) now"
  shows "case first_reach (failure_threshold m) (windows (time_window m) (history m ip) cs) of
           None \<Rightarrow>
             fst (exec h m lg (failures_of ip cs)) = replicate (length cs) (Some Below_threshold)
         | Some k \<Rightarrow>
             take k (fst (exec h m lg (failures_of ip cs))) = replicate k (Some Below_threshold)
             \<and> fst (exec h m lg (failures_of ip cs)) ! k
                 = Some (if fst (block_ip h fw lg ip) then Block_succeeded else Block_failed)
             \<and> (fst (block_ip h fw lg ip) \<longrightarrow>
                  drop (Suc k) (fst (exec h m lg (failures_of ip cs)))
                    = replicate (length cs - Suc k) (Some Ignored_blocked))"
  using assms
proof (induction cs arbitrary: m)
  case Nil
  then show ?case by (simp add: failures_of_def)
next
  case (Cons c cs)
  obtain now ts where c: "c = (now, ts)" by (cases c)
  let ?kept = "newer (dt_us now - time_window m * 1000000) (history m ip @ [ts])"
  let ?m2 = "m\<lparr>failures_by_ip := (failures_by_ip m)(ip \<mapsto> ?kept)\<rparr>"
  have rep: "representable (time_window m) now"
    using Cons.prems(4) c by simp
  note rf = rf_counted [OF Cons.prems(1,2) rep, of h lg ts]
  show ?case
  proof (cases "failure_threshold m \<le> int (length ?kept)")
    case True
    let ?mb = "?m2\<lparr>blocked_ips := insert ip (blocked_ips m),
                   failures_by_ip := (failures_by_ip m)(ip \<mapsto> [])\<rparr>"
    have rest: "exec h ?mb lg' (failures_of ip cs)
        = (replicate (length cs) (Some Ignored_blocked), ?mb, lg')" for lg'
      using Cons.prems(1) by (intro exec_blocked_all) simp_all
    show ?thesis
      using True Cons.prems(3) rf rest
      by (simp add: c failures_of_def Let_def split: prod.splits)
  next
    case False
    have h2: "history ?m2 ip = ?kept"
      by (simp add: history_def)
    have IH: "case first_reach (failure_threshold ?m2)
                  (windows (time_window ?m2) (history ?m2 ip) cs) of
           None \<Rightarrow>
             fst (exec h ?m2 lg (failures_of ip cs)) = replicate (length cs) (Some Below_threshold)
         | Some k \<Rightarrow>
             take k (fst (exec h ?m2 lg (failures_of ip cs))) = replicate k (Some Below_threshold)
             \<and> fst (exec h ?m2 lg (failures_of ip cs)) ! k
                 = Some (if fst (block_ip h fw lg ip) then Block_succeeded else Block_failed)
             \<and> (fst (block_ip h fw lg ip) \<longrightarrow>
                  drop (Suc k) (fst (exec h ?m2 lg (failures_of ip cs)))
                    = replicate (length cs - Suc k) (Some Ignored_blocked))"
      using Cons.prems by (intro Cons.IH) simp_all
    have step: "fst (exec h m lg (failures_of ip ((now, ts) # cs)))
        = Some Below_threshold # fst (exec h ?m2 lg (failures_of ip cs))"
      using False rf by (simp add: failures_of_def Let_def split: prod.splits)
    show ?thesis
      using False IH
      by (simp add: c step h2 Let_def split: option.splits)
  qed
qed

lemma representable_noon:
  "0 \<le> mm \<Longrightarrow> 0 \<le> ss \<Longrightarrow> mm < 60 \<Longrightarrow> ss < 60 \<Longrightarrow> representable 60 (noon_plus mm ss)"
  by (simp add: representable_def noon_cutoff noon_us)

text \<open>
  Claim C1. For an address that is neither whitelisted nor blocked, a monitor with a
  firewall, and any sequence of failures of the address whose cutoffs can be computed:
  let \<open>k\<close> be the first call after which the number of retained timestamps strictly
  newer than \<open>now - window\<close> reaches the threshold. Every call before \<open>k\<close> leaves
  the address below the threshold (no block), call \<open>k\<close> calls \<open>block_ip\<close>, and when
  that succeeds every later call is ignored, so the address is blocked once. When no call
  reaches the threshold, no call blocks.
\<close>

theorem C1_block_at_first_reach:
  assumes "ip \<notin> safe_ips m" and "ip \<notin> blocked_ips m" and "firewall m = Some fw"
    and "\<forall>(now, ts) \<in> set cs. representable (time_window m) now"
  shows "case first_reach (failure_threshold m) (windows (time_window m) (history m ip) cs) of
           None \<Rightarrow>
             fst (exec h m lg (failures_of ip cs)) = replicate (length cs) (Some Below_threshold)
             \<and> (\<forall>j < length cs.
                   int (length (windows (time_window m) (history m ip) cs ! j))
                     < failure_threshold m)
         | Some k \<Rightarrow>
             k < length cs
             \<and> failure_threshold m
                 \<le> int (length (windows (time_window m) (history m ip) cs ! k))
             \<and> (\<forall>j < k. int (length (windows (time_window m) (history m ip) cs ! j))
                   < failure_threshold m)
             \<and> take k (fst (exec h m lg (failures_of ip cs))) = replicate k (Some Below_threshold)
             \<and> fst (exec h m lg (failures_of ip cs)) ! k
                 = Some (if fst (block_ip h fw lg ip) then Block_succeeded else Block_failed)
             \<and> (fst (block_ip h fw lg ip) \<longrightarrow>
                  drop (Suc k) (fst (exec h m lg (failures_of ip cs)))
                    = replicate (length cs - Suc k) (Some Ignored_blocked))"
proof (cases "first_reach (failure_threshold m) (windows (time_window m) (history m ip) cs)")
  case None
  have "\<not> (\<exists>k. first_reach (failure_threshold m)
                  (windows (time_window m) (history m ip) cs) = Some k)"
    using None by simp
  then have below: "\<forall>j < length cs.
      int (length (windows (time_window m) (history m ip) cs ! j)) < failure_threshold m"
    using first_reach_none [of "failure_threshold m"
        "windows (time_window m) (history m ip) cs"] None
    by (simp add: windows_length)
  from exec_first_reach [OF assms, of h lg] None below show ?thesis
    by simp
next
  case (Some k)
  from Some have "k < length cs
      \<and> failure_threshold m \<le> int (length (windows (time_window m) (history m ip) cs ! k))
      \<and> (\<forall>j < k. int (length (windows (time_window m) (history m ip) cs ! j))
            < failure_threshold m)"
    by (simp add: first_reach_iff windows_length)
  with exec_first_reach [OF assms, of h lg] Some show ?thesis
    by simp
qed

theorem C1_block_at_first_reach_witness:
  "''203.0.113.7'' \<notin> safe_ips (set_firewall (SecurityMonitor_init 2 60 []) simulated)
   \<and> ''203.0.113.7'' \<notin> blocked_ips (set_firewall (SecurityMonitor_init 2 60 []) simulated)
   \<and> firewall (set_firewall (SecurityMonitor_init 2 60 []) simulated) = Some simulated
   \<and> representable 60 (noon_plus 0 0) \<and> representable 60 (noon_plus 0 10)
   \<and> representable 60 (noon_plus 1 10)
   \<and> first_reach 2 (windows 60 [] first_three) = Some 1
   \<and> fst (exec no_tools_host (set_firewall (SecurityMonitor_init 2 60 []) simulated) []
            (failures_of ''203.0.113.7'' first_three))
       = [Some Below_threshold, Some Block_succeeded, Some Ignored_blocked]"
proof -
  let ?m = "set_firewall (SecurityMonitor_init 2 60 []) simulated"
  have a1: "''203.0.113.7'' \<notin> safe_ips ?m" by (simp add: eval_defs)
  have a2: "''203.0.113.7'' \<notin> blocked_ips ?m" by (simp add: eval_defs)
  have a3: "firewall ?m = Some simulated" by (simp add: eval_defs)
  have r: "representable 60 (noon_plus 0 0)" "representable 60 (noon_plus 0 10)"
    "representable 60 (noon_plus 1 10)"
    by (simp_all add: representable_noon)
  have a4: "\<forall>(now, ts) \<in> set first_three. representable (time_window ?m) now"
    using r by (simp add: first_three_def eval_defs)
  have w: "first_reach (failure_threshold ?m) (windows (time_window ?m)
      (history ?m ''203.0.113.7'') first_three) = Some 1"
    by (simp add: first_three_def eval_defs)
  have ok: "fst (block_ip no_tools_host simulated [] ''203.0.113.7'')"
    by (simp add: eval_defs)
  from C1_block_at_first_reach [OF a1 a2 a3 a4, of no_tools_host "[]"] w ok a1 a2 a3 r
  show ?thesis
    by (simp add: first_three_def failures_of_def eval_defs)
qed

text \<open>
  Claim C2, as stated, fails. Failures at 12:00:00, 12:00:10 and 12:01:10, each recorded
  at its own instant, window 60 s. With threshold 3 no call blocks, but after the third
  call the history holds the last entry only: the entry of 12:00:10 is exactly at the
  cutoff 12:01:10 - 60 s and is evicted. With threshold 2 the block happens at the second
  call, where two entries are in the window, and the third call finds the address blocked.
\<close>

theorem C2_window_example_counterexample:
  "fst (exec no_tools_host (set_firewall (SecurityMonitor_init 3 60 []) simulated) []
          (three_failures ''203.0.113.7'' (noon_plus 0 0) (noon_plus 0 10) (noon_plus 1 10)))
     = [Some Below_threshold, Some Below_threshold, Some Below_threshold]
   \<and> history (fst (snd (exec no_tools_host
          (set_firewall (SecurityMonitor_init 3 60 []) simulated) []
          (three_failures ''203.0.113.7'' (noon_plus 0 0) (noon_plus 0 10) (noon_plus 1 10)))))
        ''203.0.113.7''
     = [noon_plus 1 10]
   \<and> history (fst (snd (exec no_tools_host
          (set_firewall (SecurityMonitor_init 3 60 []) simulated) []
          (three_failures ''203.0.113.7'' (noon_plus 0 0) (noon_plus 0 10) (noon_plus 1 10)))))
        ''203.0.113.7''
     \<noteq> [noon_plus 0 10, noon_plus 1 10]
   \<and> fst (exec no_tools_host (set_firewall (SecurityMonitor_init 2 60 []) simulated) []
          (three_failures ''203.0.113.7'' (noon_plus 0 0) (noon_plus 0 10) (noon_plus 1 10)))
     = [Some Below_threshold, Some Block_succeeded, Some Ignored_blocked]"
  by (simp add: three_failures_def eval_defs)

text \<open>
  Claim C2, amended. For failures at \<open>t\<close>, \<open>t + 10 s\<close> and \<open>t + 70 s\<close> of an
  address without history, each recorded at its own instant, with a window of 60 s: with a
  threshold of 3 or more no call blocks and after the third call the history is the entry
  of \<open>t + 70 s\<close> alone; with threshold 2 the second call calls \<open>block_ip\<close>, and the
  third call is ignored when that block succeeded and stays below the threshold with the
  history \<open>[t + 70 s]\<close> when it failed.
\<close>

theorem C2_window_example:
  assumes "ip \<notin> safe_ips m" and "ip \<notin> blocked_ips m" and "history m ip = []"
    and "time_window m = 60" and "firewall m = Some fw"
    and "dt_us t10 = dt_us t0 + 10 * 1000000" and "dt_us t70 = dt_us t0 + 70 * 1000000"
    and "representable 60 t0" and "representable 60 t10" and "representable 60 t70"
  shows "(3 \<le> failure_threshold m \<longrightarrow>
            exec h m lg (three_failures ip t0 t10 t70)
              = ([Some Below_threshold, Some Below_threshold, Some Below_threshold],
                 m\<lparr>failures_by_ip := (failures_by_ip m)(ip \<mapsto> [t70])\<rparr>, lg))
     \<and> (failure_threshold m = 2 \<longrightarrow>
            fst (exec h m lg (three_failures ip t0 t10 t70))
              = [Some Below_threshold,
                 Some (if fst (block_ip h fw lg ip) then Block_succeeded else Block_failed),
                 Some (if fst (block_ip h fw lg ip) then Ignored_blocked else Below_threshold)]
            \<and> history (fst (snd (exec h m lg (three_failures ip t0 t10 t70)))) ip
                = (if fst (block_ip h fw lg ip) then [] else [t70]))"
proof -
  let ?m1 = "m\<lparr>failures_by_ip := (failures_by_ip m)(ip \<mapsto> [t0])\<rparr>"
  let ?m2 = "m\<lparr>failures_by_ip := (failures_by_ip m)(ip \<mapsto> [t0, t10])\<rparr>"
  let ?m3 = "m\<lparr>failures_by_ip := (failures_by_ip m)(ip \<mapsto> [t70])\<rparr>"
  let ?mb = "m\<lparr>blocked_ips := insert ip (blocked_ips m),
               failures_by_ip := (failures_by_ip m)(ip \<mapsto> [])\<rparr>"
  have k1: "newer (dt_us t0 - 60 * 1000000) ([] @ [t0]) = [t0]"
    by (simp add: newer_def)
  have k2: "newer (dt_us t10 - 60 * 1000000) ([t0] @ [t10]) = [t0, t10]"
    using assms(6) by (simp add: newer_def)
  have k3: "newer (dt_us t70 - 60 * 1000000) ([t0, t10] @ [t70]) = [t70]"
    using assms(6,7) by (simp add: newer_def)
  have h1: "history ?m1 ip = [t0]" and h2: "history ?m2 ip = [t0, t10]"
    by (simp_all add: history_def)
  have s1: "2 \<le> failure_threshold m \<Longrightarrow>
      record_failure h t0 m lg ip t0 = (Below_threshold, ?m1, lg)"
    using rf_counted [OF assms(1,2), of t0 h lg t0] assms(3,4,8) k1
    by (simp add: Let_def)
  have s2: "3 \<le> failure_threshold m \<Longrightarrow>
      record_failure h t10 ?m1 lg ip t10 = (Below_threshold, ?m2, lg)"
    using rf_counted [of ip ?m1 t10 h lg t10] assms(1,2,4,9) k2 h1
    by (simp add: Let_def)
  have s3: "2 \<le> failure_threshold m \<Longrightarrow>
      record_failure h t70 ?m2 lg' ip t70 = (Below_threshold, ?m3, lg')" for lg'
    using rf_counted [of ip ?m2 t70 h lg' t70] assms(1,2,4,10) k3 h2
    by (simp add: Let_def)
  have b2: "failure_threshold m = 2 \<Longrightarrow>
      record_failure h t10 ?m1 lg ip t10
        = (if fst (block_ip h fw lg ip)
           then (Block_succeeded, ?mb, snd (block_ip h fw lg ip))
           else (Block_failed, ?m2, snd (block_ip h fw lg ip)))"
    using rf_counted [of ip ?m1 t10 h lg t10] assms(1,2,4,5,9) k2 h1
    by (simp add: Let_def)
  have b3: "record_failure h t70 ?mb lg' ip t70 = (Ignored_blocked, ?mb, lg')" for lg'
    using assms(1) by (intro rf_blocked) simp_all
  have three: "3 \<le> failure_threshold m \<Longrightarrow>
      exec h m lg (three_failures ip t0 t10 t70)
        = ([Some Below_threshold, Some Below_threshold, Some Below_threshold], ?m3, lg)"
    using s1 s2 s3 [of lg] by (simp add: three_failures_def)
  have two: "failure_threshold m = 2 \<Longrightarrow>
      exec h m lg (three_failures ip t0 t10 t70)
        = (if fst (block_ip h fw lg ip)
           then ([Some Below_threshold, Some Block_succeeded, Some Ignored_blocked],
                 ?mb, snd (block_ip h fw lg ip))
           else ([Some Below_threshold, Some Block_failed, Some Below_threshold],
                 ?m3, snd (block_ip h fw lg ip)))"
    using s1 b2 b3 s3 by (simp add: three_failures_def)
  show ?thesis
    using three two by (simp add: history_def)
qed

theorem C2_window_example_witness:
  "''203.0.113.7'' \<notin> safe_ips (set_firewall (SecurityMonitor_init 3 60 []) simulated)
   \<and> ''203.0.113.7'' \<notin> blocked_ips (set_firewall (SecurityMonitor_init 3 60 []) simulated)
   \<and> history (set_firewall (SecurityMonitor_init 3 60 []) simulated) ''203.0.113.7'' = []
   \<and> time_window (set_firewall (SecurityMonitor_init 3 60 []) simulated) = 60
   \<and> firewall (set_firewall (SecurityMonitor_init 3 60 []) simulated) = Some simulated
   \<and> dt_us (noon_plus 0 10) = dt_us (noon_plus 0 0) + 10 * 1000000
   \<and> dt_us (noon_plus 1 10) = dt_us (noon_plus 0 0) + 70 * 1000000
   \<and> representable 60 (noon_plus 0 0) \<and> representable 60 (noon_plus 0 10)
   \<and> representable 60 (noon_plus 1 10)
   \<and> (3::int) \<le> failure_threshold (set_firewall (SecurityMonitor_init 3 60 []) simulated)
   \<and> exec no_tools_host (set_firewall (SecurityMonitor_init 3 60 []) simulated) []
        (three_failures ''203.0.113.7'' (noon_plus 0 0) (noon_plus 0 10) (noon_plus 1 10))
       = ([Some Below_threshold, Some Below_threshold, Some Below_threshold],
          (set_firewall (SecurityMonitor_init 3 60 []) simulated)
            \<lparr>failures_by_ip := [''203.0.113.7'' \<mapsto> [noon_plus 1 10]]\<rparr>, [])"
proof -
  let ?m = "set_firewall (SecurityMonitor_init 3 60 []) simulated"
  have a1: "''203.0.113.7'' \<notin> safe_ips ?m" by (simp add: eval_defs)
  have a2: "''203.0.113.7'' \<notin> blocked_ips ?m" by (simp add: eval_defs)
  have a3: "history ?m ''203.0.113.7'' = []" by (simp add: eval_defs)
  have a4: "time_window ?m = 60" by (simp add: eval_defs)
  have a5: "firewall ?m = Some simulated" by (simp add: eval_defs)
  have a6: "dt_us (noon_plus 0 10) = dt_us (noon_plus 0 0) + 10 * 1000000"
    by (simp add: noon_us)
  have a7: "dt_us (noon_plus 1 10) = dt_us (noon_plus 0 0) + 70 * 1000000"
    by (simp add: noon_us)
  have r: "representable 60 (noon_plus 0 0)" "representable 60 (noon_plus 0 10)"
    "representable 60 (noon_plus 1 10)"
    by (simp_all add: representable_noon)
  have t: "(3::int) \<le> failure_threshold ?m" by (simp add: eval_defs)
  from C2_window_example [OF a1 a2 a3 a4 a5 a6 a7 r, of no_tools_host "[]", THEN conjunct1]
    t a1 a2 a3 a4 a5 a6 a7 r
  show ?thesis
    by (simp add: eval_defs)
qed

subsection \<open>Blocked and whitelisted addresses\<close>

text \<open>
  Claim C3. In every state the monitor reaches from its construction, a call of
  \<open>record_failure\<close> for an address of the blocked set changes nothing (neither the
  monitor nor the invocations) and triggers no block; the history of the address is and
  stays the empty list; in any later sequence of calls every failure recorded for the
  address is ignored, and no call removes an address from the blocked set.
\<close>

theorem C3_blocked_is_final:
  assumes reach: "exec h (SecurityMonitor_init thr w safe) lg0 ops0 = (outs0, m, lg)"
    and blocked: "ip \<in> blocked_ips m"
    and later: "exec h m lg ops = (outs, m', lg')"
  shows "record_failure h now m lg ip ts = (Ignored_blocked, m, lg)
     \<and> failures_by_ip m ip = Some []
     \<and> (\<forall>(x, out) \<in> set (zip ops outs). failure_of ip x \<longrightarrow> out = Some Ignored_blocked)
     \<and> failures_by_ip m' ip = Some []
     \<and> blocked_ips m \<subseteq> blocked_ips m'"
proof -
  have inv: "blocked_inv m"
    using exec_inv [OF reach init_inv] .
  then have unsafe: "ip \<notin> safe_ips m" and empty: "failures_by_ip m ip = Some []"
    using blocked by (auto simp: blocked_inv_def)
  from exec_blocked_noop [OF later blocked unsafe] exec_preserves [OF later]
    rf_blocked [OF unsafe blocked] empty
  show ?thesis by simp
qed

theorem C3_blocked_is_final_witness:
  "exec no_tools_host (SecurityMonitor_init 1 60 []) []
     [Set_firewall simulated, Record_failure (noon_plus 0 0) ''203.0.113.7'' (noon_plus 0 0)]
     = ([None, Some Block_succeeded], blocked_example, [])
   \<and> ''203.0.113.7'' \<in> blocked_ips blocked_example
   \<and> exec no_tools_host blocked_example []
        [Record_failure (noon_plus 0 5) ''203.0.113.7'' (noon_plus 0 5),
         Record_failure (noon_plus 0 6) ''203.0.113.7'' (noon_plus 0 6)]
       = ([Some Ignored_blocked, Some Ignored_blocked], blocked_example, [])
   \<and> record_failure no_tools_host (noon_plus 0 7) blocked_example [] ''203.0.113.7'' (noon_plus 0 7)
       = (Ignored_blocked, blocked_example, [])
   \<and> failures_by_ip blocked_example ''203.0.113.7'' = Some []"
proof -
  have a1: "exec no_tools_host (SecurityMonitor_init 1 60 []) []
     [Set_firewall simulated, Record_failure (noon_plus 0 0) ''203.0.113.7'' (noon_plus 0 0)]
     = ([None, Some Block_succeeded], blocked_example, [])"
    by (simp add: eval_defs blocked_example_def)
  have a2: "''203.0.113.7'' \<in> blocked_ips blocked_example"
    by (simp add: blocked_example_def)
  have a3: "exec no_tools_host blocked_example []
        [Record_failure (noon_plus 0 5) ''203.0.113.7'' (noon_plus 0 5),
         Record_failure (noon_plus 0 6) ''203.0.113.7'' (noon_plus 0 6)]
       = ([Some Ignored_blocked, Some Ignored_blocked], blocked_example, [])"
    by (simp add: eval_defs blocked_example_def)
  from C3_blocked_is_final [OF a1 a2 a3, of "noon_plus 0 7" "noon_plus 0 7"] a1 a2 a3
  show ?thesis by simp
qed

text \<open>
  Claim C4. An address of the whitelist never enters the blocked set and its entry in
  \<open>failures_by_ip\<close> is never modified, over every sequence of calls: each failure
  recorded for it is ignored.
\<close>

theorem C4_whitelisted_untouched:
  assumes "ip \<in> safe_ips m" and "ip \<notin> blocked_ips m"
    and "exec h m lg ops = (outs, m', lg')"
  shows "ip \<notin> blocked_ips m'
     \<and> failures_by_ip m' ip = failures_by_ip m ip
     \<and> (\<forall>(x, out) \<in> set (zip ops outs). failure_of ip x \<longrightarrow> out = Some Ignored_whitelisted)
     \<and> record_failure h now m' lg' ip ts = (Ignored_whitelisted, m', lg')"
proof -
  have "ip \<in> safe_ips m'"
    using exec_preserves [OF assms(3)] assms(1) by simp
  from rf_safe [OF this] exec_safe_noop [OF assms(3) assms(1)] assms(2)
  show ?thesis by simp
qed

theorem C4_whitelisted_untouched_witness:
  "''10.0.0.5'' \<in> safe_ips (set_firewall (SecurityMonitor_init 1 60 [''10.0.0.5'']) simulated)
   \<and> ''10.0.0.5'' \<notin> blocked_ips (set_firewall (SecurityMonitor_init 1 60 [''10.0.0.5'']) simulated)
   \<and> exec no_tools_host (set_firewall (SecurityMonitor_init 1 60 [''10.0.0.5'']) simulated) []
        [Record_failure (noon_plus 0 0) ''10.0.0.5'' (noon_plus 0 0),
         Record_failure (noon_plus 0 1) ''10.0.0.5'' (noon_plus 0 1)]
       = ([Some Ignored_whitelisted, Some Ignored_whitelisted],
          set_firewall (SecurityMonitor_init 1 60 [''10.0.0.5'']) simulated, [])
   \<and> ''10.0.0.5'' \<notin> blocked_ips (set_firewall (SecurityMonitor_init 1 60 [''10.0.0.5'']) simulated)
   \<and> failures_by_ip (set_firewall (SecurityMonitor_init 1 60 [''10.0.0.5'']) simulated) ''10.0.0.5''
       = None"
proof -
  let ?m = "set_firewall (SecurityMonitor_init 1 60 [''10.0.0.5'']) simulated"
  have a1: "''10.0.0.5'' \<in> safe_ips ?m"
    by (simp add: eval_defs)
  have a2: "''10.0.0.5'' \<notin> blocked_ips ?m"
    by (simp add: eval_defs)
  have a3: "exec no_tools_host ?m []
        [Record_failure (noon_plus 0 0) ''10.0.0.5'' (noon_plus 0 0),
         Record_failure (noon_plus 0 1) ''10.0.0.5'' (noon_plus 0 1)]
       = ([Some Ignored_whitelisted, Some Ignored_whitelisted], ?m, [])"
    by (simp add: eval_defs)
  from C4_whitelisted_untouched [OF a1 a2 a3] a1 a2 a3
  show ?thesis by (simp add: eval_defs)
qed

subsection \<open>Failed blocks and stale failures\<close>

text \<open>
  Claim C7. When \<open>block_ip\<close> returns failure after the threshold is reached, the
  address is not added to the blocked set and its history is kept (the pruned list, not
  cleared); \<open>block_ip\<close> was called once. The next failure of the address that reaches
  the threshold calls \<open>block_ip\<close> again, once, and the outcome is that call's result.
\<close>

theorem C7_failed_block_retried:
  assumes "record_failure h now m lg ip ts = (Block_failed, m1, lg1)"
  shows "ip \<notin> blocked_ips m1 \<and> blocked_ips m1 = blocked_ips m
     \<and> (\<exists>fw cutoff. firewall m = Some fw
           \<and> dt_plus_seconds now (- time_window m) = Inr cutoff
           \<and> failure_threshold m \<le> int (length (newer cutoff (history m ip @ [ts])))
           \<and> failures_by_ip m1 ip = Some (newer cutoff (history m ip @ [ts]))
           \<and> block_ip h fw lg ip = (False, lg1)
           \<and> (\<forall>now2 ts2 cutoff2.
                 dt_plus_seconds now2 (- time_window m) = Inr cutoff2 \<longrightarrow>
                 failure_threshold m \<le> int (length (newer cutoff2 (history m1 ip @ [ts2]))) \<longrightarrow>
                   fst (record_failure h now2 m1 lg1 ip ts2)
                     = (if fst (block_ip h fw lg1 ip) then Block_succeeded else Block_failed)
                   \<and> snd (snd (record_failure h now2 m1 lg1 ip ts2)) = snd (block_ip h fw lg1 ip)))"
proof -
  from assms obtain fw cutoff where
    unsafe: "ip \<notin> safe_ips m" and unblocked: "ip \<notin> blocked_ips m"
    and fw: "firewall m = Some fw"
    and cut: "dt_plus_seconds now (- time_window m) = Inr cutoff"
    and thr: "failure_threshold m \<le> int (length (newer cutoff (history m ip @ [ts])))"
    and blk: "block_ip h fw lg ip = (False, lg1)"
    and m1: "m1 = m\<lparr>failures_by_ip := (failures_by_ip m)(ip \<mapsto> newer cutoff (history m ip @ [ts]))\<rparr>"
    by (auto simp: record_failure_def Let_def history_def
        split: if_splits sum.splits option.splits prod.splits bool.splits)
  have again: "fst (record_failure h now2 m1 lg1 ip ts2)
         = (if fst (block_ip h fw lg1 ip) then Block_succeeded else Block_failed)
       \<and> snd (snd (record_failure h now2 m1 lg1 ip ts2)) = snd (block_ip h fw lg1 ip)"
    if "dt_plus_seconds now2 (- time_window m) = Inr cutoff2"
      and "failure_threshold m \<le> int (length (newer cutoff2 (history m1 ip @ [ts2])))"
    for now2 ts2 cutoff2
    using that unsafe unblocked fw
    by (auto simp: record_failure_def Let_def history_def m1
        split: if_splits sum.splits option.splits prod.splits bool.splits)
  show ?thesis
    using unblocked fw cut thr blk again by (simp add: m1)
qed

theorem C7_failed_block_retried_witness:
  "record_failure no_tools_host (noon_plus 0 0)
      (set_firewall (SecurityMonitor_init 1 60 []) ufw_only) [] ''203.0.113.7'' (noon_plus 0 0)
     = (Block_failed,
        \<lparr>failure_threshold = 1, time_window = 60, safe_ips = {}, firewall = Some ufw_only,
         failures_by_ip = [''203.0.113.7'' \<mapsto> [noon_plus 0 0]], blocked_ips = {}\<rparr>,
        [Subprocess_run [''ufw'', ''deny'', ''from'', ''203.0.113.7'', ''to'', ''any'']])
   \<and> ''203.0.113.7'' \<notin> blocked_ips
        \<lparr>failure_threshold = 1, time_window = 60, safe_ips = {}, firewall = Some ufw_only,
         failures_by_ip = [''203.0.113.7'' \<mapsto> [noon_plus 0 0]], blocked_ips = {}\<rparr>"
proof -
  have a1: "record_failure no_tools_host (noon_plus 0 0)
      (set_firewall (SecurityMonitor_init 1 60 []) ufw_only) [] ''203.0.113.7'' (noon_plus 0 0)
     = (Block_failed,
        \<lparr>failure_threshold = 1, time_window = 60, safe_ips = {}, firewall = Some ufw_only,
         failures_by_ip = [''203.0.113.7'' \<mapsto> [noon_plus 0 0]], blocked_ips = {}\<rparr>,
        [Subprocess_run [''ufw'', ''deny'', ''from'', ''203.0.113.7'', ''to'', ''any'']])"
    by (simp add: SecurityMonitor_init_def set_firewall_def record_failure_def noon_cutoff
      history_def newer_def noon_us block_ip_def Let_def ufw_only_def block_with_ufw_def invoke_def no_tools_host_def)
  from C7_failed_block_retried [OF a1, THEN conjunct1] a1
  show ?thesis by simp
qed




subsection \<open>Reading the timestamp of a log entry\<close>

lemma str_nat_4:
  assumes "1000 \<le> n" and "n \<le> 9999"
  shows "str_nat n = [digit_char (n div 1000), digit_char (n div 100 mod 10),
                      digit_char (n div 10 mod 10), digit_char (n mod 10)]"
proof -
  have big: "\<not> n < 10" "\<not> n div 10 < 10" "\<not> n div 100 < 10" "n div 1000 < 10"
    using assms by simp_all
  have dd: "n div 10 div 10 = n div 100" "n div 100 div 10 = n div 1000"
    by (simp_all add: div_mult2_eq [symmetric])
  have a: "str_nat n = str_nat (n div 10) @ [digit_char (n mod 10)]"
    using big(1) str_nat.simps [of n] by simp
  have b: "str_nat (n div 10) = str_nat (n div 100) @ [digit_char (n div 10 mod 10)]"
    using big(2) str_nat.simps [of "n div 10"] by (simp add: dd)
  have c: "str_nat (n div 100) = str_nat (n div 1000) @ [digit_char (n div 100 mod 10)]"
    using big(3) str_nat.simps [of "n div 100"] by (simp add: dd)
  have d: "str_nat (n div 1000) = [digit_char (n div 1000)]"
    using big(4) str_nat.simps [of "n div 1000"] by simp
  show ?thesis
    by (simp add: a b c d)
qed

lemma digit_cases: "d < 10 \<Longrightarrow> d \<in> {0, 1, 2, 3, 4, 5, 6, 7, 8, 9::nat}"
  by auto

lemma digit_char_digit: "d < 10 \<Longrightarrow> is_digit (digit_char d)"
  by (drule digit_cases) (auto simp: is_digit_def digit_char_def)

lemma digit_val_char: "d < 10 \<Longrightarrow> digit_val (digit_char d) = int d"
  by (drule digit_cases) (auto simp: digit_val_def digit_char_def)

lemma number_4:
  assumes "a < 10" "b < 10" "c < 10" "d < 10"
  shows "number [digit_char a, digit_char b, digit_char c, digit_char d]
     = int a * 1000 + int b * 100 + int c * 10 + int d"
  using assms by (simp add: number_def digit_val_char)

lemma decimal_4:
  fixes n :: nat
  shows "n div 1000 * 1000 + n div 100 mod 10 * 100 + n div 10 mod 10 * 10 + n mod 10 = n"
proof -
  have e1: "n = n div 10 * 10 + n mod 10"
    by simp
  have e2: "n div 10 = n div 100 * 10 + n div 10 mod 10"
    using div_mult_mod_eq [of "n div 10" 10] by (simp add: div_mult2_eq [symmetric])
  have e3: "n div 100 = n div 1000 * 10 + n div 100 mod 10"
    using div_mult_mod_eq [of "n div 100" 10] by (simp add: div_mult2_eq [symmetric])
  show ?thesis
    using e1 e2 e3 by linarith
qed

lemma str_int_year:
  assumes "1000 \<le> y" and "y \<le> 9999"
  shows "length (str_int y) = 4 \<and> list_all is_digit (str_int y) \<and> number (str_int y) = y"
proof -
  let ?n = "nat y"
  have n: "1000 \<le> ?n" "?n \<le> 9999" using assms by simp_all
  have lt: "?n div 1000 < 10" "?n div 100 mod 10 < 10" "?n div 10 mod 10 < 10" "?n mod 10 < 10"
    using n by simp_all
  have "int (?n div 1000 * 1000 + ?n div 100 mod 10 * 100 + ?n div 10 mod 10 * 10 + ?n mod 10)
      = int ?n"
    by (simp only: decimal_4)
  then have val: "int (?n div 1000) * 1000 + int (?n div 100 mod 10) * 100
      + int (?n div 10 mod 10) * 10 + int (?n mod 10) = y"
    using assms by simp
  have s: "str_int y = [digit_char (?n div 1000), digit_char (?n div 100 mod 10),
                      digit_char (?n div 10 mod 10), digit_char (?n mod 10)]"
    using assms by (simp add: str_int_def str_nat_4 [OF n])
  show ?thesis
    unfolding s using lt val by (simp add: digit_char_digit number_4)
qed

lemma year_directive:
  assumes "length ds = 4" and "list_all is_digit ds"
  shows "strptime_fields (CHR ''%'' # CHR ''Y'' # fmt) (ds @ rest) f
     = strptime_fields fmt rest (f\<lparr>dt_year := number ds\<rparr>)"
  using assms by (simp add: directive_def)

lemma directive_year:
  "directive d data f = Some (f', rest) \<Longrightarrow> d \<noteq> CHR ''Y'' \<Longrightarrow> dt_year f' = dt_year f"
  by (auto simp: directive_def split: if_splits option.splits list.splits)

lemma fields_keep_year:
  "strptime_fields fmt data f = Some f' \<Longrightarrow> CHR ''Y'' \<notin> set fmt \<Longrightarrow> dt_year f' = dt_year f"
proof (induction fmt data f rule: strptime_fields.induct)
  case (1 data f)
  then show ?case by (simp split: if_splits)
next
  case (2 c fmt data f)
  show ?case
  proof (cases "c = CHR ''%''")
    case True
    with "2.prems" obtain d fmt' f1 rest where
      fmt: "fmt = d # fmt'" and dir: "directive d data f = Some (f1, rest)"
      and go: "strptime_fields fmt' rest f1 = Some f'"
      by (auto split: list.splits option.splits)
    have "d \<noteq> CHR ''Y''" and "CHR ''Y'' \<notin> set fmt'"
      using "2.prems"(2) fmt by auto
    with "2.IH"(1) [OF True fmt dir refl go] directive_year [OF dir]
    show ?thesis by simp
  next
    case False
    note not_pct = False
    show ?thesis
    proof (cases "is_space c")
      case True
      with "2.prems" not_pct obtain x xs where
        data: "data = x # xs" and sp: "is_space x"
        and go: "strptime_fields (dropWhile is_space fmt) (dropWhile is_space xs) f = Some f'"
        by (auto split: list.splits if_splits)
      have "CHR ''Y'' \<notin> set (dropWhile is_space fmt)"
        using "2.prems"(2) set_dropWhileD by fastforce
      with "2.IH"(2) [OF not_pct True data sp go] show ?thesis .
    next
      case False
      with "2.prems" not_pct obtain x xs where
        data: "data = x # xs" and eq: "lower x = lower c"
        and go: "strptime_fields fmt xs f = Some f'"
        by (auto split: list.splits if_splits)
      from "2.IH"(3) [OF not_pct False data eq go] "2.prems"(2) show ?thesis
        by simp
    qed
  qed
qed

lemma str_nat_short: "n < 1000 \<Longrightarrow> length (str_nat n) \<le> 3"
proof -
  assume n: "n < 1000"
  have small: "n div 100 < 10" using n by simp
  have dd: "n div 10 div 10 = n div 100"
    by (simp add: div_mult2_eq [symmetric])
  have a: "length (str_nat (n div 100)) = 1"
    using small str_nat.simps [of "n div 100"] by simp
  have b: "length (str_nat (n div 10)) \<le> 2"
    using a str_nat.simps [of "n div 10"] by (simp add: dd)
  show ?thesis
    using b str_nat.simps [of n] by simp
qed

lemma year_directive_fails:
  "\<not> list_all is_digit (take 4 data) \<Longrightarrow>
     strptime_fields (CHR ''%'' # CHR ''Y'' # fmt) data f = None"
  by (simp add: directive_def)

lemma short_year_fails:
  assumes "0 \<le> y" and "y < 1000"
  shows "strptime (str_int y @ '' '' @ s) (TIME_FORMATS Auth_log) = Inl ValueError"
proof -
  have len: "length (str_int y) \<le> 3"
    using assms str_nat_short [of "nat y"] by (simp add: str_int_def)
  have nd: "\<not> list_all is_digit (take 4 (str_int y @ '' '' @ s))"
    using len by (simp add: take_Cons' is_digit_def)
  have fmt: "TIME_FORMATS Auth_log = CHR ''%'' # CHR ''Y'' # '' %b %d %H:%M:%S''"
    by (simp add: TIME_FORMATS_def)
  show ?thesis
    unfolding strptime_def fmt year_directive_fails [OF nd] by simp
qed

lemma days_before_year_bounds:
  assumes "1 \<le> y" and "y \<le> 9999"
  shows "0 \<le> days_before_year y" and "days_before_year y \<le> 3651793"
proof -
  let ?x = "y - 1"
  have x: "0 \<le> ?x" "?x \<le> 9998" using assms by simp_all
  have a: "?x div 100 \<le> ?x div 4"
    using x by (intro zdiv_mono2) simp_all
  have b: "0 \<le> ?x div 400" "?x div 400 \<le> 24" "?x div 4 \<le> 2499" "0 \<le> ?x div 100"
    using x by simp_all
  show "0 \<le> days_before_year y"
    using x a b by (simp add: days_before_year_def Let_def)
  show "days_before_year y \<le> 3651793"
    using x b by (simp add: days_before_year_def Let_def)
qed

lemmas fields_defs = is_space_def directive_def is_digit_def number_def digit_val_def
  month_abbr_def lower_def digits_in_def

lemma auth_log_format: "TIME_FORMATS Auth_log = CHR ''%'' # CHR ''Y'' # '' %b %d %H:%M:%S''"
  by (simp add: TIME_FORMATS_def)

lemma dec31_parse:
  assumes "1000 \<le> y" and "y \<le> 9999"
  shows "strptime (str_int y @ '' '' @ ''Dec 31 23:59:59'') (TIME_FORMATS Auth_log)
     = Inr \<lparr>dt_year = y, dt_month = 12, dt_day = 31, dt_hour = 23, dt_minute = 59,
            dt_second = 59, dt_microsecond = 0\<rparr>"
proof -
  note yr = str_int_year [OF assms]
  have rest: "strptime_fields '' %b %d %H:%M:%S'' ('' '' @ ''Dec 31 23:59:59'') f
      = Some (f\<lparr>dt_month := 12, dt_day := 31, dt_hour := 23, dt_minute := 59,
                dt_second := 59\<rparr>)" for f
    by (simp add: fields_defs)
  have "strptime_fields (TIME_FORMATS Auth_log) (str_int y @ '' '' @ ''Dec 31 23:59:59'') f
      = Some (f\<lparr>dt_year := y, dt_month := 12, dt_day := 31, dt_hour := 23, dt_minute := 59,
                dt_second := 59\<rparr>)" for f
    unfolding auth_log_format using yr
    by (simp only: year_directive rest)
  then show ?thesis
    using assms
    by (simp add: strptime_def valid_datetime_def MINYEAR_def MAXYEAR_def days_in_month_def)
qed

lemma jan1_limit:
  assumes "valid_datetime now2" and "dt_month now2 = 1" and "dt_day now2 = 1"
  shows "dt_plus_seconds now2 86400 = Inr (dt_us now2 + 86400000000)"
    and "dt_us now2 + 86400000000
          < dt_us \<lparr>dt_year = dt_year now2, dt_month = 12, dt_day = 31, dt_hour = 23,
                   dt_minute = 59, dt_second = 59, dt_microsecond = 0\<rparr>"
proof -
  have y: "1 \<le> dt_year now2" "dt_year now2 \<le> 9999"
    using assms(1) by (simp_all add: valid_datetime_def MINYEAR_def MAXYEAR_def)
  note b = days_before_year_bounds [OF y]
  have t: "0 \<le> dt_hour now2" "dt_hour now2 \<le> 23" "0 \<le> dt_minute now2" "dt_minute now2 \<le> 59"
    "0 \<le> dt_second now2" "dt_second now2 \<le> 59" "0 \<le> dt_microsecond now2"
    "dt_microsecond now2 \<le> 999999"
    using assms(1) by (simp_all add: valid_datetime_def)
  have us: "dt_us now2 = (days_before_year (dt_year now2) * 86400 + dt_hour now2 * 3600
        + dt_minute now2 * 60 + dt_second now2) * 1000000 + dt_microsecond now2"
    using assms(2,3) by (simp add: dt_us_def ymd2ord_def days_before_month_def)
  have d: "dt_us \<lparr>dt_year = dt_year now2, dt_month = 12, dt_day = 31, dt_hour = 23,
                   dt_minute = 59, dt_second = 59, dt_microsecond = 0\<rparr>
      = ((days_before_year (dt_year now2) + 364 + (if is_leap (dt_year now2) then 1 else 0))
           * 86400 + 86399) * 1000000"
    by (simp add: dt_us_def ymd2ord_def days_before_month_def)
  show "dt_plus_seconds now2 86400 = Inr (dt_us now2 + 86400000000)"
    using b t by (simp add: dt_plus_seconds_def MAXORDINAL_def us Let_def)
  show "dt_us now2 + 86400000000
          < dt_us \<lparr>dt_year = dt_year now2, dt_month = 12, dt_day = 31, dt_hour = 23,
                   dt_minute = 59, dt_second = 59, dt_microsecond = 0\<rparr>"
    using t by (simp add: us d)
qed

lemma injected_year:
  assumes "MINYEAR \<le> y" and "y \<le> MAXYEAR"
    and "strptime (str_int y @ '' '' @ s) (TIME_FORMATS Auth_log) = Inr ts"
  shows "dt_year ts = y"
proof (cases "y < 1000")
  case True
  with assms(1) short_year_fails [of y s] assms(3) show ?thesis
    by (simp add: MINYEAR_def)
next
  case False
  then have y: "1000 \<le> y" "y \<le> 9999"
    using assms(2) by (simp_all add: MAXYEAR_def)
  note yr = str_int_year [OF y]
  let ?f = "\<lparr>dt_year = 1900, dt_month = 1, dt_day = 1, dt_hour = 0, dt_minute = 0,
              dt_second = 0, dt_microsecond = 0\<rparr>"
  have step: "strptime_fields (TIME_FORMATS Auth_log) (str_int y @ '' '' @ s) ?f
      = strptime_fields '' %b %d %H:%M:%S'' ('' '' @ s) (?f\<lparr>dt_year := number (str_int y)\<rparr>)"
    unfolding auth_log_format using yr by (simp only: year_directive)
  from assms(3) have "strptime_fields (TIME_FORMATS Auth_log) (str_int y @ '' '' @ s) ?f = Some ts"
    by (auto simp: strptime_def split: option.splits if_splits)
  with step have "strptime_fields '' %b %d %H:%M:%S'' ('' '' @ s)
      (?f\<lparr>dt_year := number (str_int y)\<rparr>) = Some ts"
    by simp
  from fields_keep_year [OF this] yr show ?thesis
    by simp
qed

lemma strptime_valid: "strptime data fmt = Inr ts \<Longrightarrow> valid_datetime ts"
  by (auto simp: strptime_def split: option.splits if_splits)

lemma leap_not_before: "is_leap y \<Longrightarrow> \<not> is_leap (y - 1)"
proof -
  assume "is_leap y"
  then have "y mod 4 = 0" by (simp add: is_leap_def)
  then have "(y - 1) mod 4 \<noteq> 0" by presburger
  then show ?thesis by (simp add: is_leap_def)
qed

lemma replace_previous_year:
  assumes "valid_datetime ts" and "2 \<le> dt_year ts"
    and "\<not> (dt_month ts = 2 \<and> dt_day ts = 29)"
  shows "dt_replace_year ts (dt_year ts - 1) = Inr (ts\<lparr>dt_year := dt_year ts - 1\<rparr>)"
proof -
  have "dt_day ts \<le> days_in_month (dt_year ts - 1) (dt_month ts)"
    using assms(1,3) by (auto simp: valid_datetime_def days_in_month_def split: if_splits)
  then show ?thesis
    using assms(1,2) by (simp add: dt_replace_year_def valid_datetime_def MINYEAR_def MAXYEAR_def)
qed

lemma replace_leap_day:
  assumes "valid_datetime ts" and "dt_month ts = 2" and "dt_day ts = 29"
  shows "dt_replace_year ts (dt_year ts - 1) = Inl ValueError"
proof -
  have "is_leap (dt_year ts)"
    using assms by (auto simp: valid_datetime_def days_in_month_def split: if_splits)
  from leap_not_before [OF this] show ?thesis
    using assms(2,3) by (simp add: dt_replace_year_def valid_datetime_def days_in_month_def)
qed

lemma str_int_2024: "str_int 2024 = ''2024''"
  by (simp add: str_int_def str_nat_4 digit_char_def)

lemma feb29_parse:
  "strptime ''2024 Feb 29 10:00:00'' (TIME_FORMATS Auth_log)
     = Inr \<lparr>dt_year = 2024, dt_month = 2, dt_day = 29, dt_hour = 10, dt_minute = 0,
            dt_second = 0, dt_microsecond = 0\<rparr>"
  by (simp add: strptime_def TIME_FORMATS_def fields_defs valid_datetime_def MINYEAR_def
      MAXYEAR_def days_in_month_def is_leap_def)

lemma mid_january_limit:
  "dt_plus_seconds mid_january_2024 86400 = Inr (dt_us mid_january_2024 + 86400 * 1000000)"
  by (simp add: dt_plus_seconds_def dt_us_def ymd2ord_def days_before_year_def
      days_before_month_def is_leap_def MAXORDINAL_def mid_january_2024_def Let_def)

lemma feb29_ahead:
  "dt_us \<lparr>dt_year = 2024, dt_month = 2, dt_day = 29, dt_hour = 10, dt_minute = 0,
            dt_second = 0, dt_microsecond = 0\<rparr> > dt_us mid_january_2024 + 86400 * 1000000"
  by (simp add: dt_us_def ymd2ord_def days_before_year_def
      days_before_month_def is_leap_def mid_january_2024_def Let_def)

text \<open>
  Claim C5, as stated, fails: the entry \<open>Feb 29 10:00:00\<close> read on 15 January 2024 is
  parsed, with the year injected, as 29 February 2024, which is more than one day after
  \<open>now\<close>; the year is not decremented, since 2023 has no 29 February:
  \<open>replace\<close> raises \<open>ValueError\<close>, the entry yields no timestamp and is dropped with
  the warning of an unparseable timestamp.
\<close>

theorem C5_leap_day_counterexample:
  "dt_year mid_january_2024 = 2024
   \<and> strptime (str_int 2024 @ '' '' @ ''Feb 29 10:00:00'') (TIME_FORMATS Auth_log)
       = Inr \<lparr>dt_year = 2024, dt_month = 2, dt_day = 29, dt_hour = 10, dt_minute = 0,
              dt_second = 0, dt_microsecond = 0\<rparr>
   \<and> dt_plus_seconds mid_january_2024 86400 = Inr (dt_us mid_january_2024 + 86400 * 1000000)
   \<and> dt_us \<lparr>dt_year = 2024, dt_month = 2, dt_day = 29, dt_hour = 10, dt_minute = 0,
              dt_second = 0, dt_microsecond = 0\<rparr> > dt_us mid_january_2024 + 86400 * 1000000
   \<and> entry_timestamp mid_january_2024 mid_january_2024 Auth_log ''Feb 29 10:00:00''
       = Inl ValueError
   \<and> process_log_entry no_tools_host mid_january_2024 mid_january_2024 mid_january_2024
        (SecurityMonitor_init 5 60 []) [] Auth_log
        (Some (''Feb 29 10:00:00'', ''Failed password'', ''203.0.113.7''))
       = (Parse_warning, SecurityMonitor_init 5 60 [], [])"
proof -
  have y: "dt_year mid_january_2024 = 2024"
    by (simp add: mid_january_2024_def)
  have p: "strptime (str_int 2024 @ '' '' @ ''Feb 29 10:00:00'') (TIME_FORMATS Auth_log)
       = Inr \<lparr>dt_year = 2024, dt_month = 2, dt_day = 29, dt_hour = 10, dt_minute = 0,
              dt_second = 0, dt_microsecond = 0\<rparr>"
    using feb29_parse by (simp add: str_int_2024)
  have r: "dt_replace_year \<lparr>dt_year = 2024, dt_month = 2, dt_day = 29, dt_hour = 10,
        dt_minute = 0, dt_second = 0, dt_microsecond = 0\<rparr> (2024 - 1) = Inl ValueError"
    by (simp add: dt_replace_year_def valid_datetime_def days_in_month_def is_leap_def)
  have e: "entry_timestamp mid_january_2024 mid_january_2024 Auth_log ''Feb 29 10:00:00''
       = Inl ValueError"
    using p r feb29_ahead mid_january_limit
    by (simp add: entry_timestamp_def y Let_def)
  have d: "process_log_entry no_tools_host mid_january_2024 mid_january_2024 mid_january_2024
        (SecurityMonitor_init 5 60 []) [] Auth_log
        (Some (''Feb 29 10:00:00'', ''Failed password'', ''203.0.113.7''))
       = (Parse_warning, SecurityMonitor_init 5 60 [], [])"
    by (simp add: process_log_entry_def e)
  show ?thesis
    using y p mid_january_limit feb29_ahead e d by simp
qed

text \<open>
  Claim C5, amended. When a syslog-style timestamp is parsed, the string read is the
  current year followed by the entry's text and the year read back is the current year.
  If the resulting timestamp lies more than one day after \<open>now\<close> and is not a
  29 February, the entry's timestamp is that datetime with the year decremented by one;
  if it does not lie more than one day after \<open>now\<close>, it is that datetime itself. A
  29 February more than one day after \<open>now\<close> has no date in the previous year: the
  entry yields a \<open>ValueError\<close> and is dropped with a warning, the monitor unchanged.
  In particular \<open>Dec 31 23:59:59\<close> read on January 1 of a year from 1000 on is
  December 31, 23:59:59 of the previous year.
\<close>

theorem C5_syslog_year_rollover:
  assumes "MINYEAR \<le> dt_year now1" and "dt_year now1 \<le> MAXYEAR"
  shows "(\<forall>ts limit.
            strptime (str_int (dt_year now1) @ '' '' @ s) (TIME_FORMATS Auth_log) = Inr ts
            \<and> dt_plus_seconds now2 86400 = Inr limit \<longrightarrow>
              dt_year ts = dt_year now1
              \<and> limit = dt_us now2 + 86400 * 1000000
              \<and> entry_timestamp now1 now2 Auth_log s
                  = (if dt_us ts > limit
                     then (if dt_month ts = 2 \<and> dt_day ts = 29 then Inl ValueError
                           else Inr (ts\<lparr>dt_year := dt_year now1 - 1\<rparr>))
                     else Inr ts)
              \<and> (dt_us ts > limit \<and> dt_month ts = 2 \<and> dt_day ts = 29 \<longrightarrow>
                    process_log_entry h now1 now2 now3 m lg Auth_log (Some (s, kind, ip))
                      = (Parse_warning, m, lg)))
     \<and> (1000 \<le> dt_year now1 \<and> valid_datetime now2 \<and> dt_year now2 = dt_year now1
          \<and> dt_month now2 = 1 \<and> dt_day now2 = 1 \<longrightarrow>
            entry_timestamp now1 now2 Auth_log ''Dec 31 23:59:59''
              = Inr \<lparr>dt_year = dt_year now1 - 1, dt_month = 12, dt_day = 31, dt_hour = 23,
                     dt_minute = 59, dt_second = 59, dt_microsecond = 0\<rparr>)"
proof (rule conjI)
  show "\<forall>ts limit.
            strptime (str_int (dt_year now1) @ '' '' @ s) (TIME_FORMATS Auth_log) = Inr ts
            \<and> dt_plus_seconds now2 86400 = Inr limit \<longrightarrow>
              dt_year ts = dt_year now1
              \<and> limit = dt_us now2 + 86400 * 1000000
              \<and> entry_timestamp now1 now2 Auth_log s
                  = (if dt_us ts > limit
                     then (if dt_month ts = 2 \<and> dt_day ts = 29 then Inl ValueError
                           else Inr (ts\<lparr>dt_year := dt_year now1 - 1\<rparr>))
                     else Inr ts)
              \<and> (dt_us ts > limit \<and> dt_month ts = 2 \<and> dt_day ts = 29 \<longrightarrow>
                    process_log_entry h now1 now2 now3 m lg Auth_log (Some (s, kind, ip))
                      = (Parse_warning, m, lg))"
  proof (intro allI impI)
    fix ts limit
    assume a: "strptime (str_int (dt_year now1) @ '' '' @ s) (TIME_FORMATS Auth_log) = Inr ts
            \<and> dt_plus_seconds now2 86400 = Inr limit"
    then have p: "strptime (str_int (dt_year now1) @ '' '' @ s) (TIME_FORMATS Auth_log) = Inr ts"
      and l: "dt_plus_seconds now2 86400 = Inr limit"
      by simp_all
    have yr: "dt_year ts = dt_year now1"
      by (rule injected_year [OF assms p])
    have big: "1000 \<le> dt_year now1"
    proof (rule ccontr)
      assume "\<not> 1000 \<le> dt_year now1"
      with assms(1) short_year_fails [of "dt_year now1" s] p show False
        by (simp add: MINYEAR_def)
    qed
    have v: "valid_datetime ts"
      by (rule strptime_valid [OF p])
    have lim: "limit = dt_us now2 + 86400 * 1000000"
      using l by (simp add: dt_plus_seconds_def Let_def split: if_splits)
    have e: "entry_timestamp now1 now2 Auth_log s
        = (if dt_us ts > limit then dt_replace_year ts (dt_year now1 - 1) else Inr ts)"
      using p l by (simp add: entry_timestamp_def Let_def)
    have r1: "dt_replace_year ts (dt_year now1 - 1) = Inr (ts\<lparr>dt_year := dt_year now1 - 1\<rparr>)"
      if "\<not> (dt_month ts = 2 \<and> dt_day ts = 29)"
      using replace_previous_year [OF v _ that] big yr by simp
    have r2: "dt_replace_year ts (dt_year now1 - 1) = Inl ValueError"
      if "dt_month ts = 2 \<and> dt_day ts = 29"
      using replace_leap_day [OF v] that yr by simp
    have res: "entry_timestamp now1 now2 Auth_log s
        = (if dt_us ts > limit
           then (if dt_month ts = 2 \<and> dt_day ts = 29 then Inl ValueError
                 else Inr (ts\<lparr>dt_year := dt_year now1 - 1\<rparr>))
           else Inr ts)"
    proof (cases "dt_month ts = 2 \<and> dt_day ts = 29")
      case True
      show ?thesis
        by (simp only: e r2 [OF True] if_P [OF True])
    next
      case False
      show ?thesis
        by (simp only: e r1 [OF False] if_not_P [OF False])
    qed
    have drop: "process_log_entry h now1 now2 now3 m lg Auth_log (Some (s, kind, ip))
        = (Parse_warning, m, lg)"
      if "dt_us ts > limit \<and> dt_month ts = 2 \<and> dt_day ts = 29"
      using that by (simp add: process_log_entry_def res)
    show "dt_year ts = dt_year now1
        \<and> limit = dt_us now2 + 86400 * 1000000
        \<and> entry_timestamp now1 now2 Auth_log s
            = (if dt_us ts > limit
               then (if dt_month ts = 2 \<and> dt_day ts = 29 then Inl ValueError
                     else Inr (ts\<lparr>dt_year := dt_year now1 - 1\<rparr>))
               else Inr ts)
        \<and> (dt_us ts > limit \<and> dt_month ts = 2 \<and> dt_day ts = 29 \<longrightarrow>
              process_log_entry h now1 now2 now3 m lg Auth_log (Some (s, kind, ip))
                = (Parse_warning, m, lg))"
      using yr lim res drop by blast
  qed
next
  show "1000 \<le> dt_year now1 \<and> valid_datetime now2 \<and> dt_year now2 = dt_year now1
          \<and> dt_month now2 = 1 \<and> dt_day now2 = 1 \<longrightarrow>
            entry_timestamp now1 now2 Auth_log ''Dec 31 23:59:59''
              = Inr \<lparr>dt_year = dt_year now1 - 1, dt_month = 12, dt_day = 31, dt_hour = 23,
                     dt_minute = 59, dt_second = 59, dt_microsecond = 0\<rparr>"
  proof
    assume a: "1000 \<le> dt_year now1 \<and> valid_datetime now2 \<and> dt_year now2 = dt_year now1
          \<and> dt_month now2 = 1 \<and> dt_day now2 = 1"
    then have y: "1000 \<le> dt_year now1" "dt_year now1 \<le> 9999"
      using assms(2) by (simp_all add: MAXYEAR_def)
    from a have v: "valid_datetime now2" and m: "dt_month now2 = 1" and d: "dt_day now2 = 1"
      and same: "dt_year now2 = dt_year now1"
      by simp_all
    note lim = jan1_limit [OF v m d, unfolded same]
    have rep: "dt_replace_year
        \<lparr>dt_year = dt_year now1, dt_month = 12, dt_day = 31, dt_hour = 23,
          dt_minute = 59, dt_second = 59, dt_microsecond = 0\<rparr> (dt_year now1 - 1)
       = Inr \<lparr>dt_year = dt_year now1 - 1, dt_month = 12, dt_day = 31, dt_hour = 23,
              dt_minute = 59, dt_second = 59, dt_microsecond = 0\<rparr>"
      using y by (simp add: dt_replace_year_def valid_datetime_def MINYEAR_def MAXYEAR_def
          days_in_month_def)
    show "entry_timestamp now1 now2 Auth_log ''Dec 31 23:59:59''
        = Inr \<lparr>dt_year = dt_year now1 - 1, dt_month = 12, dt_day = 31, dt_hour = 23,
               dt_minute = 59, dt_second = 59, dt_microsecond = 0\<rparr>"
      using lim rep dec31_parse [OF y] by (simp add: entry_timestamp_def Let_def)
  qed
qed

theorem C5_syslog_year_rollover_witness:
  "MINYEAR \<le> dt_year new_year_2025 \<and> dt_year new_year_2025 \<le> MAXYEAR
   \<and> strptime (str_int (dt_year new_year_2025) @ '' '' @ ''Dec 31 23:59:59'')
         (TIME_FORMATS Auth_log)
       = Inr \<lparr>dt_year = 2025, dt_month = 12, dt_day = 31, dt_hour = 23, dt_minute = 59,
              dt_second = 59, dt_microsecond = 0\<rparr>
   \<and> dt_plus_seconds new_year_2025 86400 = Inr (dt_us new_year_2025 + 86400000000)
   \<and> dt_us new_year_2025 + 86400000000
       < dt_us \<lparr>dt_year = 2025, dt_month = 12, dt_day = 31, dt_hour = 23, dt_minute = 59,
                dt_second = 59, dt_microsecond = 0\<rparr>
   \<and> entry_timestamp new_year_2025 new_year_2025 Auth_log ''Dec 31 23:59:59''
       = Inr \<lparr>dt_year = 2024, dt_month = 12, dt_day = 31, dt_hour = 23,
              dt_minute = 59, dt_second = 59, dt_microsecond = 0\<rparr>
   \<and> MINYEAR \<le> dt_year mid_january_2024 \<and> dt_year mid_january_2024 \<le> MAXYEAR
   \<and> strptime (str_int (dt_year mid_january_2024) @ '' '' @ ''Feb 29 10:00:00'')
         (TIME_FORMATS Auth_log)
       = Inr \<lparr>dt_year = 2024, dt_month = 2, dt_day = 29, dt_hour = 10, dt_minute = 0,
              dt_second = 0, dt_microsecond = 0\<rparr>
   \<and> process_log_entry iptables_host mid_january_2024 mid_january_2024 mid_january_2024
        blocked_example [] Auth_log
        (Some (''Feb 29 10:00:00'', ''Invalid user'', ''198.51.100.4''))
       = (Parse_warning, blocked_example, [])"
proof -
  let ?dec = "\<lparr>dt_year = 2025, dt_month = 12, dt_day = 31, dt_hour = 23, dt_minute = 59,
              dt_second = 59, dt_microsecond = 0\<rparr>"
  let ?feb = "\<lparr>dt_year = 2024, dt_month = 2, dt_day = 29, dt_hour = 10, dt_minute = 0,
              dt_second = 0, dt_microsecond = 0\<rparr>"
  have y: "dt_year new_year_2025 = 2025"
    by (simp add: new_year_2025_def)
  have a1: "MINYEAR \<le> dt_year new_year_2025" and a2: "dt_year new_year_2025 \<le> MAXYEAR"
    by (simp_all add: new_year_2025_def MINYEAR_def MAXYEAR_def)
  have v: "valid_datetime new_year_2025" and mo: "dt_month new_year_2025 = 1"
    and da: "dt_day new_year_2025 = 1"
    by (simp_all add: new_year_2025_def valid_datetime_def MINYEAR_def MAXYEAR_def
        days_in_month_def)
  have p: "strptime (str_int (dt_year new_year_2025) @ '' '' @ ''Dec 31 23:59:59'')
         (TIME_FORMATS Auth_log) = Inr ?dec"
    unfolding y using dec31_parse [of 2025] by simp
  have l: "dt_plus_seconds new_year_2025 86400 = Inr (dt_us new_year_2025 + 86400000000)"
    by (rule jan1_limit(1) [OF v mo da])
  have ahead: "dt_us new_year_2025 + 86400000000 < dt_us ?dec"
    using jan1_limit(2) [OF v mo da] by (simp only: y)
  have e: "entry_timestamp new_year_2025 new_year_2025 Auth_log ''Dec 31 23:59:59''
       = Inr \<lparr>dt_year = 2024, dt_month = 12, dt_day = 31, dt_hour = 23,
              dt_minute = 59, dt_second = 59, dt_microsecond = 0\<rparr>"
    using C5_syslog_year_rollover [of new_year_2025 "''Dec 31 23:59:59''" new_year_2025,
        OF a1 a2, THEN conjunct1, rule_format, OF conjI [OF p l],
        THEN conjunct2, THEN conjunct2, THEN conjunct1] ahead
    by (simp add: y)
  have y': "dt_year mid_january_2024 = 2024"
    by (simp add: mid_january_2024_def)
  have b1: "MINYEAR \<le> dt_year mid_january_2024" and b2: "dt_year mid_january_2024 \<le> MAXYEAR"
    by (simp_all add: mid_january_2024_def MINYEAR_def MAXYEAR_def)
  have p': "strptime (str_int (dt_year mid_january_2024) @ '' '' @ ''Feb 29 10:00:00'')
         (TIME_FORMATS Auth_log) = Inr ?feb"
    unfolding y' using feb29_parse by (simp add: str_int_2024)
  have far: "dt_us mid_january_2024 + 86400 * 1000000 < dt_us ?feb
      \<and> dt_month ?feb = 2 \<and> dt_day ?feb = 29"
    using feb29_ahead by simp
  have d: "process_log_entry iptables_host mid_january_2024 mid_january_2024 mid_january_2024
        blocked_example [] Auth_log
        (Some (''Feb 29 10:00:00'', ''Invalid user'', ''198.51.100.4''))
       = (Parse_warning, blocked_example, [])"
    by (rule C5_syslog_year_rollover [of mid_january_2024 "''Feb 29 10:00:00''"
          mid_january_2024 iptables_host mid_january_2024 blocked_example "[]"
          "''Invalid user''" "''198.51.100.4''", OF b1 b2, THEN conjunct1,
          rule_format, OF conjI [OF p' mid_january_limit],
          THEN conjunct2, THEN conjunct2, THEN conjunct2, rule_format, OF far])
  show ?thesis
    using a1 a2 p l ahead e b1 b2 p' d by blast
qed

subsection \<open>Starting the monitor\<close>

text \<open>
  Claim C6, as stated, fails: a monitor constructed with threshold 0 and window -5 keeps
  both values, and \<open>start_monitoring\<close> on a host with a readable \<open>auth.log\<close>
  starts the monitoring thread.
\<close>

theorem C6_no_validation_counterexample:
  "failure_threshold (SecurityMonitor_init 0 (- 5) []) = 0
   \<and> time_window (SecurityMonitor_init 0 (- 5) []) = - 5
   \<and> start_monitoring readable_files no_tools_host []
        (SSHLogParser_init (SecurityMonitor_init 0 (- 5) []))
       = (Started Auth_log,
          \<lparr>security_monitor = SecurityMonitor_init 0 (- 5) [], is_active = True,
           monitor_thread = Some ''_monitor_auth_log'', auth_log_path = ''/var/log/auth.log''\<rparr>,
          [])"
  by (simp add: SecurityMonitor_init_def SSHLogParser_init_def start_monitoring_def
      determine_log_source_def readable_files_def)

text \<open>
  Claim C6, amended. \<open>start_monitoring\<close> does not validate the configuration:
  \<open>SecurityMonitor.__init__\<close> keeps any threshold and window it is given,
  the result of \<open>start_monitoring\<close> is the same for every security monitor, and when
  \<open>/var/log/auth.log\<close> exists and can be read, monitoring starts for every threshold
  and window, also those that are not strictly positive.
\<close>

theorem C6_start_ignores_configuration:
  "start_monitoring fs h lg (p\<lparr>security_monitor := sm\<rparr>)
     = (case start_monitoring fs h lg p of
          (r, p', lg') \<Rightarrow> (r, p'\<lparr>security_monitor := sm\<rparr>, lg'))
   \<and> failure_threshold (SecurityMonitor_init thr w safe) = thr
   \<and> time_window (SecurityMonitor_init thr w safe) = w
   \<and> (os_path_exists fs ''/var/log/auth.log'' \<and> os_access_R_OK fs ''/var/log/auth.log'' \<longrightarrow>
        start_monitoring fs h lg (SSHLogParser_init (SecurityMonitor_init thr w safe))
          = (Started Auth_log,
             \<lparr>security_monitor = SecurityMonitor_init thr w safe, is_active = True,
              monitor_thread = Some ''_monitor_auth_log'',
              auth_log_path = ''/var/log/auth.log''\<rparr>,
             lg))"
proof (intro conjI)
  show "start_monitoring fs h lg (p\<lparr>security_monitor := sm\<rparr>)
     = (case start_monitoring fs h lg p of
          (r, p', lg') \<Rightarrow> (r, p'\<lparr>security_monitor := sm\<rparr>, lg'))"
    by (auto simp: start_monitoring_def determine_log_source_def invoke_def Let_def
        split: reply.splits)
  show "failure_threshold (SecurityMonitor_init thr w safe) = thr"
    and "time_window (SecurityMonitor_init thr w safe) = w"
    by (simp_all add: SecurityMonitor_init_def)
  show "os_path_exists fs ''/var/log/auth.log'' \<and> os_access_R_OK fs ''/var/log/auth.log'' \<longrightarrow>
        start_monitoring fs h lg (SSHLogParser_init (SecurityMonitor_init thr w safe))
          = (Started Auth_log,
             \<lparr>security_monitor = SecurityMonitor_init thr w safe, is_active = True,
              monitor_thread = Some ''_monitor_auth_log'',
              auth_log_path = ''/var/log/auth.log''\<rparr>,
             lg)"
    by (simp add: start_monitoring_def determine_log_source_def SSHLogParser_init_def)
qed

theorem C6_start_ignores_configuration_witness:
  "os_path_exists readable_files ''/var/log/auth.log''
   \<and> os_access_R_OK readable_files ''/var/log/auth.log''
   \<and> failure_threshold (SecurityMonitor_init (- 1) 0 [''127.0.0.1'']) = - 1
   \<and> time_window (SecurityMonitor_init (- 1) 0 [''127.0.0.1'']) = 0
   \<and> start_monitoring readable_files iptables_host []
        (SSHLogParser_init (SecurityMonitor_init (- 1) 0 [''127.0.0.1'']))
       = (Started Auth_log,
          \<lparr>security_monitor = SecurityMonitor_init (- 1) 0 [''127.0.0.1''], is_active = True,
           monitor_thread = Some ''_monitor_auth_log'', auth_log_path = ''/var/log/auth.log''\<rparr>,
          [])"
proof -
  have r: "os_path_exists readable_files ''/var/log/auth.log''
      \<and> os_access_R_OK readable_files ''/var/log/auth.log''"
    by (simp add: readable_files_def)
  note all = C6_start_ignores_configuration [of readable_files iptables_host "[]" _ _ "- 1" 0
      "[''127.0.0.1'']"]
  note stored = all [THEN conjunct2, THEN conjunct1] all [THEN conjunct2, THEN conjunct2, THEN conjunct1]
  note started = all [THEN conjunct2, THEN conjunct2, THEN conjunct2, rule_format, OF r]
  show ?thesis
    using r stored started by blast
qed

subsection \<open>FirewallController\<close>

text \<open>
  Claim C9. In simulation mode \<open>block_ip\<close> returns success for every address and
  makes no external invocation, whatever firewall system was detected: the list of
  invocations it returns is the one it was given.
\<close>

theorem C9_simulation_block:
  "simulation_mode fw \<Longrightarrow> block_ip h fw lg ip = (True, lg)"
  by (simp add: block_ip_def)

theorem C9_simulation_block_witness:
  "simulation_mode \<lparr>simulation_mode = True, firewall_system = ''iptables''\<rparr>
   \<and> block_ip iptables_host \<lparr>simulation_mode = True, firewall_system = ''iptables''\<rparr> []
        ''203.0.113.7'' = (True, [])"
  using C9_simulation_block
    [of "\<lparr>simulation_mode = True, firewall_system = ''iptables''\<rparr>" iptables_host "[]" "''203.0.113.7''"]
  by simp

text \<open>
  Claim C8. With the iptables backend, when the rule check reports no rule at the first
  call and an existing rule at the second, two calls of \<open>block_ip\<close> for one address
  make exactly one add-rule invocation: the first call checks and adds, the second call
  checks, skips the add and returns success.
\<close>

theorem C8_iptables_block_twice:
  assumes "\<not> simulation_mode fw" and "firewall_system fw = ''iptables''"
    and "h lg (iptables_check_cmd ip) = Completed status out err" and "status \<noteq> 0"
    and "h (lg @ [iptables_check_cmd ip, iptables_add_cmd ip]) (iptables_check_cmd ip)
           = Completed 0 out' err'"
  shows "snd (block_ip h fw lg ip) = lg @ [iptables_check_cmd ip, iptables_add_cmd ip]
     \<and> block_ip h fw (snd (block_ip h fw lg ip)) ip
         = (True, lg @ [iptables_check_cmd ip, iptables_add_cmd ip, iptables_check_cmd ip])
     \<and> count_list (snd (block_ip h fw (snd (block_ip h fw lg ip)) ip)) (iptables_add_cmd ip)
         = count_list lg (iptables_add_cmd ip) + 1"
proof -
  have ne: "iptables_check_cmd ip \<noteq> iptables_add_cmd ip"
    by (simp add: iptables_check_cmd_def iptables_add_cmd_def)
  have first: "snd (block_ip h fw lg ip) = lg @ [iptables_check_cmd ip, iptables_add_cmd ip]"
    using assms(1-4)
    by (simp add: block_ip_def block_with_iptables_def invoke_def split: reply.splits)
  have second: "block_ip h fw (lg @ [iptables_check_cmd ip, iptables_add_cmd ip]) ip
      = (True, lg @ [iptables_check_cmd ip, iptables_add_cmd ip, iptables_check_cmd ip])"
    using assms(1,2,5)
    by (simp add: block_ip_def block_with_iptables_def invoke_def)
  show ?thesis
    using ne by (simp add: first second)
qed

theorem C8_iptables_block_twice_witness:
  "\<not> simulation_mode \<lparr>simulation_mode = False, firewall_system = ''iptables''\<rparr>
   \<and> firewall_system \<lparr>simulation_mode = False, firewall_system = ''iptables''\<rparr> = ''iptables''
   \<and> iptables_host [] (iptables_check_cmd ''203.0.113.7'') = Completed 256 [] []
   \<and> (256 :: int) \<noteq> 0
   \<and> iptables_host ([] @ [iptables_check_cmd ''203.0.113.7'', iptables_add_cmd ''203.0.113.7''])
        (iptables_check_cmd ''203.0.113.7'') = Completed 0 [] []
   \<and> block_ip iptables_host \<lparr>simulation_mode = False, firewall_system = ''iptables''\<rparr>
        (snd (block_ip iptables_host \<lparr>simulation_mode = False, firewall_system = ''iptables''\<rparr>
               [] ''203.0.113.7'')) ''203.0.113.7''
       = (True, [iptables_check_cmd ''203.0.113.7'', iptables_add_cmd ''203.0.113.7'',
                 iptables_check_cmd ''203.0.113.7''])
   \<and> count_list
        (snd (block_ip iptables_host \<lparr>simulation_mode = False, firewall_system = ''iptables''\<rparr>
          (snd (block_ip iptables_host \<lparr>simulation_mode = False, firewall_system = ''iptables''\<rparr>
                 [] ''203.0.113.7'')) ''203.0.113.7''))
        (iptables_add_cmd ''203.0.113.7'') = 1"
proof -
  let ?fw = "\<lparr>simulation_mode = False, firewall_system = ''iptables''\<rparr>"
  let ?ip = "''203.0.113.7''"
  have a1: "\<not> simulation_mode ?fw" by simp
  have a2: "firewall_system ?fw = ''iptables''" by simp
  have a3: "iptables_host [] (iptables_check_cmd ?ip) = Completed 256 [] []"
    by (simp add: iptables_host_def iptables_check_cmd_def)
  have a4: "(256 :: int) \<noteq> 0" by simp
  have a5: "iptables_host ([] @ [iptables_check_cmd ?ip, iptables_add_cmd ?ip])
        (iptables_check_cmd ?ip) = Completed 0 [] []"
    by (simp add: iptables_host_def iptables_check_cmd_def iptables_add_cmd_def)
  from C8_iptables_block_twice
      [where fw = ?fw and h = iptables_host and lg = "[]" and ip = ?ip,
        OF a1 a2 a3 a4 a5, THEN conjunct2]
    a1 a2 a3 a4 a5
  show ?thesis by (simp add: iptables_check_cmd_def iptables_add_cmd_def)
qed

end
